theory Spec2Isabelle
  imports Main "HOL-Library.Word"
begin

unbundle bit_operations_syntax

section \<open>Common types\<close>

text \<open>
  Go strings and byte slices are byte sequences: both are \<open>string\<close> (a list of
  8-bit characters), so that \<open>string(b)\<close> and \<open>[]byte(s)\<close> are the identity.
  A \<open>net.IP\<close> is a byte slice that may be nil: \<open>None\<close> is nil.
  \<open>time.Duration\<close> and unix seconds are \<open>int64\<close>; Go's \<open>int\<close> is taken at its
  64-bit width.
\<close>

type_synonym bytes = string
type_synonym IP = "8 word list option"

datatype error = ErrInvalidName | ErrCorruptInput | ErrEOF | ErrUnexpectedEOF | ErrShortBuffer
  | ErrBadType | ErrBadLength | ErrBadVersion | ErrBufferFull | ErrNoProgress | ErrIO string

text \<open>A Go call either returns a value, returns an error, or panics.\<close>

datatype 'a result = Ok 'a | Err error | Panic

definition result_bind :: "'a result \<Rightarrow> ('a \<Rightarrow> 'b result) \<Rightarrow> 'b result" where
  "result_bind r f = (case r of Ok v \<Rightarrow> f v | Err e \<Rightarrow> Err e | Panic \<Rightarrow> Panic)"

section \<open>hosts.go\<close>

record Host =
  IP :: IP
  Hostname :: string
  Aliases :: "string list"

record Hosts =
  hosts :: "Host list"
  hosts_period :: "64 word"

text \<open>
  The inner loop of \<open>Lookup\<close> over \<open>h.Aliases\<close>: at the first alias equal to
  \<open>host\<close> it assigns \<open>ip = h.IP\<close> and breaks out of this loop only.
\<close>

fun alias_loop :: "string list \<Rightarrow> string \<Rightarrow> IP \<Rightarrow> IP \<Rightarrow> IP" where
  "alias_loop [] host hip ip = ip"
| "alias_loop (alias # as) host hip ip =
     (if alias = host then hip else alias_loop as host hip ip)"

text \<open>
  The outer loop over \<open>h.hosts\<close>: a hostname hit assigns and breaks (leaving the
  outer loop); otherwise the alias loop runs and the outer loop goes on to the next
  entry with whatever \<open>ip\<close> now holds.
\<close>

fun lookup_loop :: "Host list \<Rightarrow> string \<Rightarrow> IP \<Rightarrow> IP" where
  "lookup_loop [] host ip = ip"
| "lookup_loop (h # hs) host ip =
     (if Hostname h = host then IP h
      else lookup_loop hs host (alias_loop (Aliases h) host (IP h) ip))"

definition Lookup :: "Hosts option \<Rightarrow> string \<Rightarrow> IP" where
  "Lookup h host =
     (case h of None \<Rightarrow> None | Some t \<Rightarrow> lookup_loop (hosts t) host None)"

text \<open>
  The reading of the specification: the IP of the first entry, in list order, whose
  hostname or one of whose aliases equals the name; nil when there is none.
\<close>

definition host_matches :: "Host \<Rightarrow> string \<Rightarrow> bool" where
  "host_matches h host = (Hostname h = host \<or> host \<in> set (Aliases h))"

definition first_match_lookup :: "Hosts option \<Rightarrow> string \<Rightarrow> IP" where
  "first_match_lookup h host =
     (case h of None \<Rightarrow> None
      | Some t \<Rightarrow> (case List.find (\<lambda>e. host_matches e host) (hosts t) of
                    None \<Rightarrow> None | Some e \<Rightarrow> IP e))"

section \<open>The selector's FailFilter\<close>

text \<open>
  Modelled from the spec: the \<open>Node\<close> struct is declared outside the given sources;
  the specification gives it \<open>failCount: u32\<close> and \<open>failTime: i64\<close> (unix seconds)
  and says that \<open>Clone()\<close> yields a detached copy. The other fields are the
  \<open>payload\<close>.
\<close>

record 'a Node =
  payload :: 'a
  failCount :: "32 word"
  failTime :: "64 word"

definition Clone :: "'a Node \<Rightarrow> 'a Node" where
  "Clone n = n"

record FailFilter =
  MaxFails :: "64 word"
  FailTimeout :: "64 word"

definition minDuration :: int where "minDuration = - (2 ^ 63)"
definition maxDuration :: int where "maxDuration = 2 ^ 63 - 1"

text \<open>
  \<open>time.Since(time.Unix(sec, 0))\<close> with the wall clock reading \<open>now\<close> in
  nanoseconds since the epoch. \<open>time.Unix\<close> stores the seconds since year 1,
  \<open>sec + unixToInternal\<close> in \<open>int64\<close> arithmetic, which wraps for the largest
  \<open>sec\<close>; \<open>Time.Sub\<close> gives the difference of the two instants in nanoseconds,
  saturated to the range of a \<open>Duration\<close>. One clock reading serves a whole call
  of \<open>Filter\<close>.
\<close>

definition unixToInternal :: int where "unixToInternal = 62135596800"

definition time_Unix :: "64 word \<Rightarrow> int" where
  "time_Unix sec = sint (sec + word_of_int unixToInternal)"

definition time_Since :: "int \<Rightarrow> 64 word \<Rightarrow> int" where
  "time_Since now sec =
     max minDuration
       (min maxDuration
          ((now div 1000000000 + unixToInternal - time_Unix sec) * 1000000000
           + now mod 1000000000))"

text \<open>
  The condition of the loop body under which a node is appended to \<open>nl\<close>;
  \<open>uint32(f.MaxFails)\<close> keeps the low 32 bits of the 64-bit \<open>int\<close>.
\<close>

definition fail_keep :: "int \<Rightarrow> FailFilter \<Rightarrow> 'a Node \<Rightarrow> bool" where
  "fail_keep now f n =
     (failCount n < (ucast (MaxFails f) :: 32 word)
      \<or> time_Since now (failTime n) \<ge> sint (FailTimeout f))"

definition FailFilter_Filter :: "int \<Rightarrow> FailFilter \<Rightarrow> 'a Node list \<Rightarrow> 'a Node list" where
  "FailFilter_Filter now f nodes =
     (if length nodes \<le> 1 \<or> sint (MaxFails f) \<le> 0 then nodes
      else map Clone (filter (fail_keep now f) nodes))"

text \<open>
  The drop condition in the words of the specification, the time since the failure
  being what \<open>time.Since\<close> reads.
\<close>

definition spec_drops :: "int \<Rightarrow> FailFilter \<Rightarrow> 'a Node \<Rightarrow> bool" where
  "spec_drops now f n =
     (int (unat (failCount n)) \<ge> sint (MaxFails f)
      \<and> time_Since now (failTime n) < sint (FailTimeout f))"

section \<open>bypass.go\<close>

text \<open>
  The functions of \<open>net\<close>, \<open>strconv\<close>, \<open>time\<close>, \<open>strings\<close> and \<open>gobwas/glob\<close>
  that the matchers, \<open>Bypass\<close> and the resolver call and that are not written out
  below are parameters, collected in one record.
  \<open>ParseCIDR\<close> and \<open>GlobCompile\<close> give \<open>None\<close> where the library reports an
  error; \<open>SplitHostPort\<close> gives two empty strings and \<open>Atoi\<close> and
  \<open>ParseDuration\<close> give the value the library returns beside its error.
\<close>

record ('net, 'glob) golib =
  ParseIP :: "string \<Rightarrow> IP"
  ParseCIDR :: "string \<Rightarrow> 'net option"
  NetContains :: "'net \<Rightarrow> IP \<Rightarrow> bool"
  GlobCompile :: "string \<Rightarrow> 'glob option"
  GlobMatch :: "'glob \<Rightarrow> string \<Rightarrow> bool"
  SplitHostPort :: "string \<Rightarrow> string \<times> string"
  Atoi :: "string \<Rightarrow> int"
  ParseDuration :: "string \<Rightarrow> 64 word"
  ToLower :: "string \<Rightarrow> string"

record ipMatcher =
  ip :: IP

record 'net cidrMatcher =
  ipNet :: "'net option"

record 'glob domainMatcher =
  pattern :: string
  glob :: "'glob option"

text \<open>
  A \<open>Matcher\<close> interface value holds a pointer to one of the three structs; the
  pointer may be nil (\<open>None\<close>), which the \<open>Match\<close> methods test first. The nil
  interface itself is \<open>None\<close> of \<open>Matcher option\<close>.
\<close>

datatype ('net, 'glob) Matcher =
  IPM "ipMatcher option"
| CIDRM "'net cidrMatcher option"
| DomainM "'glob domainMatcher option"

definition v4InV6Prefix :: "8 word list" where
  "v4InV6Prefix = [0, 0, 0, 0, 0, 0, 0, 0, 0, 0, 0xff, 0xff]"

text \<open>\<open>net.IP.Equal\<close>: an IPv4 address equals its IPv4-in-IPv6 form.\<close>

definition IP_Equal :: "IP \<Rightarrow> IP \<Rightarrow> bool" where
  "IP_Equal a b =
     (let x = (case a of None \<Rightarrow> [] | Some v \<Rightarrow> v);
          y = (case b of None \<Rightarrow> [] | Some v \<Rightarrow> v)
      in if length x = length y then x = y
         else if length x = 4 \<and> length y = 16 then take 12 y = v4InV6Prefix \<and> x = drop 12 y
         else if length x = 16 \<and> length y = 4 then take 12 x = v4InV6Prefix \<and> drop 12 x = y
         else False)"

fun Match :: "('net, 'glob) golib \<Rightarrow> ('net, 'glob) Matcher \<Rightarrow> string \<Rightarrow> bool" where
  "Match L (IPM None) v = False"
| "Match L (IPM (Some m)) v = IP_Equal (ip m) (ParseIP L v)"
| "Match L (CIDRM None) v = False"
| "Match L (CIDRM (Some m)) v =
     (case ipNet m of None \<Rightarrow> False | Some n \<Rightarrow> NetContains L n (ParseIP L v))"
| "Match L (DomainM None) v = False"
| "Match L (DomainM (Some m)) v =
     (case glob m of None \<Rightarrow> False
      | Some g \<Rightarrow> if v = pattern m then True else GlobMatch L g v)"

definition HasPrefix :: "string \<Rightarrow> string \<Rightarrow> bool" where
  "HasPrefix s p = (take (length p) s = p)"

text \<open>\<open>glob.MustCompile\<close> panics on a pattern that does not compile.\<close>

definition DomainMatcher :: "('net, 'glob) golib \<Rightarrow> string \<Rightarrow> ('net, 'glob) Matcher result" where
  "DomainMatcher L pat =
     (let p = (if HasPrefix pat ''.'' then drop 1 pat else pat);
          pat' = (if HasPrefix pat ''.'' then ''*'' @ pat else pat)
      in case GlobCompile L pat' of
           None \<Rightarrow> Panic
         | Some g \<Rightarrow> Ok (DomainM (Some \<lparr>pattern = p, glob = Some g\<rparr>)))"

definition NewMatcher :: "('net, 'glob) golib \<Rightarrow> string \<Rightarrow> ('net, 'glob) Matcher option result" where
  "NewMatcher L pat =
     (if pat = [] then Ok None
      else case ParseIP L pat of
             Some a \<Rightarrow> Ok (Some (IPM (Some \<lparr>ip = Some a\<rparr>)))
           | None \<Rightarrow>
              (case ParseCIDR L pat of
                 Some inet \<Rightarrow> Ok (Some (CIDRM (Some \<lparr>ipNet = Some inet\<rparr>)))
               | None \<Rightarrow>
                  (case DomainMatcher L pat of
                     Ok m \<Rightarrow> Ok (Some m) | Err e \<Rightarrow> Err e | Panic \<Rightarrow> Panic)))"

text \<open>The mutex is left out: the model runs one call at a time.\<close>

record ('net, 'glob) Bypass =
  matchers :: "('net, 'glob) Matcher option list"
  reversed :: bool
  bp_period :: "64 word"

text \<open>The loop of \<open>Contains\<close>: nil matchers are skipped, the first match ends it.\<close>

fun match_loop :: "('net, 'glob) golib \<Rightarrow> ('net, 'glob) Matcher option list \<Rightarrow> string \<Rightarrow> bool" where
  "match_loop L [] addr = False"
| "match_loop L (None # ms) addr = match_loop L ms addr"
| "match_loop L (Some m # ms) addr = (if Match L m addr then True else match_loop L ms addr)"

definition strip_port :: "('net, 'glob) golib \<Rightarrow> string \<Rightarrow> string" where
  "strip_port L addr =
     (case SplitHostPort L addr of
        (host, port) \<Rightarrow>
          if host \<noteq> [] \<and> port \<noteq> [] then (if Atoi L port > 0 then host else addr)
          else addr)"

definition Contains :: "('net, 'glob) golib \<Rightarrow> ('net, 'glob) Bypass option \<Rightarrow> string \<Rightarrow> bool" where
  "Contains L bp addr =
     (case bp of
        None \<Rightarrow> False
      | Some b \<Rightarrow>
          (let matched = match_loop L (matchers b) (strip_port L addr)
           in \<not> reversed b \<and> matched \<or> reversed b \<and> \<not> matched))"

section \<open>handler.go\<close>

text \<open>
  A connection is the data still to arrive on it, as the chunks that successive calls
  of its \<open>Read\<close> deliver, and whether it has been closed. \<open>Read\<close> with a buffer of
  \<open>n\<close> bytes takes at most \<open>n\<close> bytes of the next chunk out of the connection; an
  empty chunk is a read of no bytes and no error; when nothing is left it returns
  \<open>io.EOF\<close>. What a read has taken is gone from the connection.
\<close>

record Conn =
  pending :: "bytes list"
  closed :: bool

definition Conn_Read :: "nat \<Rightarrow> Conn \<Rightarrow> (bytes \<times> error option) \<times> Conn" where
  "Conn_Read n c =
     (case pending c of
        [] \<Rightarrow> (([], Some ErrEOF), c)
      | ch # rest \<Rightarrow>
          ((take n ch, None),
           c\<lparr>pending := (if length ch \<le> n then rest else drop n ch # rest)\<rparr>))"

text \<open>
  A \<open>bufio.Reader\<close> is its buffered, not yet consumed bytes and its pending read
  error. The reader reads from a connection that the caller also holds, so its
  methods take the connection and return it as they left it.
\<close>

record bufio_Reader =
  rd_buf :: bytes
  rd_err :: "error option"

definition defaultBufSize :: nat where "defaultBufSize = 4096"
definition maxConsecutiveEmptyReads :: nat where "maxConsecutiveEmptyReads = 100"

definition NewReader :: "Conn \<Rightarrow> bufio_Reader" where
  "NewReader c = \<lparr>rd_buf = [], rd_err = None\<rparr>"

text \<open>
  \<open>fill\<close> reads a chunk from the connection into the free part of the buffer,
  trying again, up to the limit, while the connection returns no bytes and no error.
\<close>

fun fill_loop :: "nat \<Rightarrow> bufio_Reader \<Rightarrow> Conn \<Rightarrow> bufio_Reader \<times> Conn" where
  "fill_loop 0 r c = (r\<lparr>rd_err := Some ErrNoProgress\<rparr>, c)"
| "fill_loop (Suc i) r c =
     (case Conn_Read (defaultBufSize - length (rd_buf r)) c of
        ((bs, e), c') \<Rightarrow>
          if e \<noteq> None then (r\<lparr>rd_buf := rd_buf r @ bs, rd_err := e\<rparr>, c')
          else if bs \<noteq> [] then (r\<lparr>rd_buf := rd_buf r @ bs\<rparr>, c')
          else fill_loop i r c')"

definition fill :: "bufio_Reader \<Rightarrow> Conn \<Rightarrow> bufio_Reader \<times> Conn" where
  "fill r c = fill_loop maxConsecutiveEmptyReads r c"

text \<open>
  The loop of \<open>Peek\<close> fills the buffer until it holds \<open>n\<close> bytes, is full, or a
  read has failed. Every \<open>fill\<close> adds a byte or sets the error, so the loop ends.
\<close>

function Peek_loop :: "nat \<Rightarrow> bufio_Reader \<Rightarrow> Conn \<Rightarrow> bufio_Reader \<times> Conn" where
  "Peek_loop n r c =
     (if length (rd_buf r) < n \<and> length (rd_buf r) < defaultBufSize \<and> rd_err r = None
      then (case fill r c of (r', c') \<Rightarrow> Peek_loop n r' c')
      else (r, c))"
  by pat_completeness auto
termination
proof (relation "measure (\<lambda>(n, r, c). (defaultBufSize - length (rd_buf r))
                                       + (if rd_err r = None then 1 else 0))", goal_cases)
  case 1
  show ?case by simp
next
  case (2 n r c r' c')
  have grow: "rd_err r1 \<noteq> None \<and> rd_buf r1 = rd_buf r
              \<or> rd_err r1 = rd_err r \<and> length (rd_buf r) < length (rd_buf r1)"
    if "fill_loop i r c0 = (r1, c1)" for i c0 r1 c1
    using that
  proof (induction i arbitrary: c0)
    case 0
    then show ?case by auto
  next
    case (Suc i)
    then show ?case
      by (auto simp: Conn_Read_def split: list.splits if_splits)
  qed
  have "fill_loop maxConsecutiveEmptyReads r c = (r', c')"
    using 2(2) by (simp add: fill_def)
  from grow[OF this] 2(1) show ?case by auto
qed

declare Peek_loop.simps [simp del]

text \<open>
  \<open>Peek\<close> returns the first \<open>n\<close> buffered bytes without consuming them, or the
  bytes there are with the error that kept the buffer short.
\<close>

definition Peek :: "nat \<Rightarrow> bufio_Reader \<Rightarrow> Conn \<Rightarrow> (bytes \<times> error option) \<times> bufio_Reader \<times> Conn" where
  "Peek n r c =
     (case Peek_loop n r c of
        (r', c') \<Rightarrow>
          if defaultBufSize < n then ((rd_buf r', Some ErrBufferFull), r', c')
          else if length (rd_buf r') < n
          then ((rd_buf r', Some (case rd_err r' of None \<Rightarrow> ErrBufferFull | Some e \<Rightarrow> e)),
                r'\<lparr>rd_err := None\<rparr>, c')
          else ((take n (rd_buf r'), None), r', c'))"

text \<open>
  \<open>Reader.Read\<close>: buffered bytes are handed out first; only on an empty buffer is
  the connection read, straight into the caller's slice when that is at least as large
  as the buffer, else once into the buffer.
\<close>

definition Reader_Read :: "nat \<Rightarrow> bufio_Reader \<Rightarrow> Conn \<Rightarrow> (bytes \<times> error option) \<times> bufio_Reader \<times> Conn" where
  "Reader_Read n r c =
     (if n = 0 then
        (if rd_buf r \<noteq> [] then (([], None), r, c)
         else (([], rd_err r), r\<lparr>rd_err := None\<rparr>, c))
      else if rd_buf r = [] then
        (if rd_err r \<noteq> None then (([], rd_err r), r\<lparr>rd_err := None\<rparr>, c)
         else if defaultBufSize \<le> n then
           (case Conn_Read n c of ((bs, e), c') \<Rightarrow> ((bs, e), r, c'))
         else
           (case Conn_Read defaultBufSize c of
              ((bs, e), c') \<Rightarrow>
                if bs = [] then (([], e), r, c')
                else ((take n bs, None), r\<lparr>rd_buf := drop n bs, rd_err := e\<rparr>, c')))
      else ((take n (rd_buf r), None), r\<lparr>rd_buf := drop n (rd_buf r)\<rparr>, c))"

text \<open>
  A \<open>bufferdConn\<close> holds the connection and the reader over that same connection;
  its \<open>Read\<close> is the reader's, its other methods, \<open>Close\<close> among them, are the
  connection's.
\<close>

record bufferdConn =
  bc_Conn :: Conn
  br :: bufio_Reader

definition bufferdConn_Read :: "nat \<Rightarrow> bufferdConn \<Rightarrow> (bytes \<times> error option) \<times> bufferdConn" where
  "bufferdConn_Read n cc =
     (case Reader_Read n (br cc) (bc_Conn cc) of
        (res, r', c') \<Rightarrow> (res, \<lparr>bc_Conn = c', br = r'\<rparr>))"

text \<open>
  What a handler receives when it calls \<open>Read\<close> with a buffer of \<open>n\<close> bytes until
  the first error. Every read without error consumes a buffered byte or a chunk, or a
  part of one, of the connection.
\<close>

definition unread_size :: "bufferdConn \<Rightarrow> nat" where
  "unread_size cc = length (rd_buf (br cc)) + (\<Sum>ch\<leftarrow>pending (bc_Conn cc). Suc (length ch))"

function read_stream :: "nat \<Rightarrow> bufferdConn \<Rightarrow> bytes" where
  "read_stream n cc =
     (if n = 0 then []
      else (case bufferdConn_Read n cc of
              ((bs, Some e), cc') \<Rightarrow> bs
            | ((bs, None), cc') \<Rightarrow> bs @ read_stream n cc'))"
  by pat_completeness auto
termination
proof (relation "measure (\<lambda>(n, cc). unread_size cc)", goal_cases)
  case 1
  show ?case by simp
next
  case (2 n cc x cc' bs e)
  then have rd: "bufferdConn_Read n cc = ((bs, None), cc')" and n: "0 < n" by simp_all
  show ?case
  proof (cases "rd_buf (br cc) = []")
    case False
    then have "0 < length (rd_buf (br cc))" by simp
    then show ?thesis using rd n False
      by (auto simp: bufferdConn_Read_def Reader_Read_def unread_size_def)
  next
    case True
    then show ?thesis using rd n
      by (auto simp: bufferdConn_Read_def Reader_Read_def unread_size_def Conn_Read_def
          split: if_splits list.splits)
  qed
qed

declare read_stream.simps [simp del]


text \<open>Of the options \<open>Handle\<close> reads \<open>Users\<close> only; it hands all of them on.\<close>

record HandlerOptions =
  Users :: "string list"

datatype handler = socks4Handler HandlerOptions | socks5Handler HandlerOptions
  | httpHandler HandlerOptions

text \<open>What \<open>Handle\<close> did with the connection.\<close>

datatype outcome =
    PeekFailed error Conn
  | Refused bufferdConn
  | Routed handler bufferdConn

text \<open>
  Modelled from the spec: the constants \<open>gosocks4.Ver4\<close> and \<open>gosocks5.Ver5\<close> are
  declared outside the given sources; the specification gives them as \<open>0x04\<close> and
  \<open>0x05\<close>.
\<close>

definition Ver4 :: char where "Ver4 = CHR 0x04"
definition Ver5 :: char where "Ver5 = CHR 0x05"

definition Close :: "Conn \<Rightarrow> Conn" where
  "Close c = c\<lparr>closed := True\<rparr>"

text \<open>
  \<open>Handle\<close> peeks one byte through a fresh reader, which takes data out of the
  connection, and wraps the connection as it then is together with that reader.
\<close>

definition autoHandler_Handle :: "HandlerOptions \<Rightarrow> Conn \<Rightarrow> outcome" where
  "autoHandler_Handle options conn =
     (case Peek 1 (NewReader conn) conn of
        ((b, Some err), rd, conn') \<Rightarrow> PeekFailed err (Close conn')
      | ((b, None), rd, conn') \<Rightarrow>
          (let cc = \<lparr>bc_Conn = conn', br = rd\<rparr> in
           if b ! 0 = Ver4 then
             (if length (Users options) > 0 then Refused (cc\<lparr>bc_Conn := Close conn'\<rparr>)
              else Routed (socks4Handler options) cc)
           else if b ! 0 = Ver5 then Routed (socks5Handler options) cc
           else Routed (httpHandler options) cc))"

section \<open>sni.go: the obfuscation codec\<close>

subsection \<open>\<open>encoding/base64\<close>, \<open>RawURLEncoding\<close>\<close>

definition encodeURL :: string where
  "encodeURL = ''ABCDEFGHIJKLMNOPQRSTUVWXYZabcdefghijklmnopqrstuvwxyz0123456789-_''"

text \<open>The decoding table is the inverse of the alphabet; every other byte is invalid.\<close>

definition decodeMap :: "char \<Rightarrow> nat option" where
  "decodeMap c = map_of (zip encodeURL [0..<64]) c"

text \<open>
  \<open>Encode\<close>: three source bytes give four 6-bit values; a remainder of two bytes
  gives three and of one byte gives two, and nothing is padded. Shifts and masks are
  written as \<open>div\<close> and \<open>mod\<close>.
\<close>

fun sextets :: "bytes \<Rightarrow> nat list" where
  "sextets (a # b # c # rest) =
     (let val = of_char a * 65536 + of_char b * 256 + of_char c
      in val div 262144 mod 64 # val div 4096 mod 64 # val div 64 mod 64 # val mod 64
           # sextets rest)"
| "sextets [a, b] =
     (let val = of_char a * 65536 + of_char b * 256
      in [val div 262144 mod 64, val div 4096 mod 64, val div 64 mod 64])"
| "sextets [a] =
     (let val = of_char a * 65536
      in [val div 262144 mod 64, val div 4096 mod 64])"
| "sextets [] = []"

definition EncodeToString :: "bytes \<Rightarrow> string" where
  "EncodeToString src = map (\<lambda>v. encodeURL ! v) (sextets src)"

text \<open>
  \<open>decodeQuantum\<close>, on the 6-bit values: four give three bytes; at the end of the
  input three give two bytes and two give one (the unused low bits are not checked:
  the encoding is not strict), and a single one is corrupt input.
\<close>

fun decode_quanta :: "nat list \<Rightarrow> bytes option" where
  "decode_quanta (a # b # c # d # rest) =
     (case decode_quanta rest of
        None \<Rightarrow> None
      | Some bs \<Rightarrow>
          (let val = a * 262144 + b * 4096 + c * 64 + d
           in Some (char_of (val div 65536) # char_of (val div 256) # char_of val # bs)))"
| "decode_quanta [a, b, c] =
     (let val = a * 262144 + b * 4096 + c * 64
      in Some [char_of (val div 65536), char_of (val div 256)])"
| "decode_quanta [a, b] =
     (let val = a * 262144 + b * 4096
      in Some [char_of (val div 65536)])"
| "decode_quanta [a] = None"
| "decode_quanta [] = Some []"

text \<open>
  \<open>DecodeString\<close>: \<open>\r\<close> and \<open>\n\<close> are skipped, any other byte outside
  the alphabet (the padding character included) is corrupt input. \<open>None\<close> is the
  \<open>CorruptInputError\<close>.
\<close>

definition DecodeString :: "string \<Rightarrow> bytes option" where
  "DecodeString s =
     (case those (map decodeMap (filter (\<lambda>c. c \<noteq> CHR 0x0A \<and> c \<noteq> CHR 0x0D) s)) of
        None \<Rightarrow> None
      | Some vs \<Rightarrow> decode_quanta vs)"

subsection \<open>\<open>hash/crc32\<close> and \<open>encoding/binary\<close>\<close>

text \<open>
  The IEEE table entry of \<open>i\<close> is eight steps of the reflected polynomial
  \<open>0xedb88320\<close>; the checksum runs the table over the bytes, complementing before
  and after.
\<close>

definition crc_step :: "32 word \<Rightarrow> 32 word" where
  "crc_step crc = (if crc AND 1 = 1 then drop_bit 1 crc XOR 0xedb88320 else drop_bit 1 crc)"

fun crc_bits :: "nat \<Rightarrow> 32 word \<Rightarrow> 32 word" where
  "crc_bits 0 crc = crc"
| "crc_bits (Suc j) crc = crc_bits j (crc_step crc)"

definition IEEETable :: "32 word \<Rightarrow> 32 word" where
  "IEEETable i = crc_bits 8 i"

definition crc_update :: "32 word \<Rightarrow> bytes \<Rightarrow> 32 word" where
  "crc_update crc p =
     NOT (foldl (\<lambda>c v. IEEETable ((c AND 0xff) XOR word_of_nat (of_char v)) XOR drop_bit 8 c)
            (NOT crc) p)"

definition ChecksumIEEE :: "bytes \<Rightarrow> 32 word" where
  "ChecksumIEEE data = crc_update 0 data"

text \<open>\<open>binary.Write(buf, binary.BigEndian, v)\<close> for a \<open>uint32\<close> and a \<open>uint16\<close>.\<close>

definition PutUint32 :: "32 word \<Rightarrow> bytes" where
  "PutUint32 v = [char_of (unat v div 16777216), char_of (unat v div 65536),
                  char_of (unat v div 256), char_of (unat v)]"

definition PutUint16 :: "16 word \<Rightarrow> bytes" where
  "PutUint16 v = [char_of (unat v div 256), char_of (unat v)]"

text \<open>\<open>binary.BigEndian.Uint32(b)\<close>, called on four bytes.\<close>

definition Uint32 :: "bytes \<Rightarrow> 32 word" where
  "Uint32 b = word_of_nat (of_char (b ! 3) + of_char (b ! 2) * 256
                + of_char (b ! 1) * 65536 + of_char (b ! 0) * 16777216)"

subsection \<open>\<open>encodeServerName\<close> and \<open>decodeServerName\<close>\<close>

definition encodeServerName :: "string \<Rightarrow> string" where
  "encodeServerName name =
     EncodeToString (PutUint32 (ChecksumIEEE name) @ EncodeToString name)"

text \<open>\<open>Inl\<close> is the error return (the string returned beside it is empty).\<close>

definition decodeServerName :: "string \<Rightarrow> error + string" where
  "decodeServerName s =
     (case DecodeString s of
        None \<Rightarrow> Inl ErrCorruptInput
      | Some b \<Rightarrow>
          if length b < 4 then Inl ErrInvalidName
          else (case DecodeString (drop 4 b) of
                  None \<Rightarrow> Inl ErrCorruptInput
                | Some v \<Rightarrow>
                    if ChecksumIEEE v \<noteq> Uint32 (take 4 b) then Inl ErrInvalidName
                    else Inr v))"

text \<open>
  The four ways \<open>decodeServerName\<close> can fail, each as a predicate of the input.
  \<open>crc_mismatch\<close> is the condition of the specification: the prefix and the name
  bytes both decode, and the checksum of the name bytes is not the prefix.
\<close>

definition malformed_outer :: "string \<Rightarrow> bool" where
  "malformed_outer s = (DecodeString s = None)"

definition too_short :: "string \<Rightarrow> bool" where
  "too_short s = (case DecodeString s of None \<Rightarrow> False | Some b \<Rightarrow> length b < 4)"

definition malformed_inner :: "string \<Rightarrow> bool" where
  "malformed_inner s =
     (case DecodeString s of
        None \<Rightarrow> False
      | Some b \<Rightarrow> 4 \<le> length b \<and> DecodeString (drop 4 b) = None)"

definition crc_mismatch :: "string \<Rightarrow> bool" where
  "crc_mismatch s =
     (case DecodeString s of
        None \<Rightarrow> False
      | Some b \<Rightarrow>
          4 \<le> length b \<and>
          (case DecodeString (drop 4 b) of
             None \<Rightarrow> False
           | Some v \<Rightarrow> ChecksumIEEE v \<noteq> Uint32 (take 4 b)))"

definition fails :: "error + 'a \<Rightarrow> bool" where
  "fails r = (case r of Inl e \<Rightarrow> True | Inr v \<Rightarrow> False)"

section \<open>The \<open>strings\<close> functions used\<close>

definition TrimPrefix :: "string \<Rightarrow> string \<Rightarrow> string" where
  "TrimPrefix s p = (if HasPrefix s p then drop (length p) s else s)"

definition HasSuffix :: "string \<Rightarrow> string \<Rightarrow> bool" where
  "HasSuffix s p = (length p \<le> length s \<and> drop (length s - length p) s = p)"

definition TrimSuffix :: "string \<Rightarrow> string \<Rightarrow> string" where
  "TrimSuffix s p = (if HasSuffix s p then take (length s - length p) s else s)"

text \<open>
  \<open>TrimSpace\<close> removes the leading and trailing white space of Unicode: the six ASCII
  space characters and the UTF-8 encodings of U+0085, U+00A0, U+1680, U+2000 to U+200A,
  U+2028, U+2029, U+202F, U+205F and U+3000.
\<close>

definition asciiSpace :: "char \<Rightarrow> bool" where
  "asciiSpace c = (c = CHR 0x09 \<or> c = CHR 0x0A \<or> c = CHR 0x0B \<or> c = CHR 0x0C
                   \<or> c = CHR 0x0D \<or> c = CHR 0x20)"

definition unicode_spaces :: "string list" where
  "unicode_spaces =
     [[CHR 0xC2, CHR 0x85], [CHR 0xC2, CHR 0xA0], [CHR 0xE1, CHR 0x9A, CHR 0x80],
      [CHR 0xE2, CHR 0x80, CHR 0x80], [CHR 0xE2, CHR 0x80, CHR 0x81],
      [CHR 0xE2, CHR 0x80, CHR 0x82], [CHR 0xE2, CHR 0x80, CHR 0x83],
      [CHR 0xE2, CHR 0x80, CHR 0x84], [CHR 0xE2, CHR 0x80, CHR 0x85],
      [CHR 0xE2, CHR 0x80, CHR 0x86], [CHR 0xE2, CHR 0x80, CHR 0x87],
      [CHR 0xE2, CHR 0x80, CHR 0x88], [CHR 0xE2, CHR 0x80, CHR 0x89],
      [CHR 0xE2, CHR 0x80, CHR 0x8A], [CHR 0xE2, CHR 0x80, CHR 0xA8],
      [CHR 0xE2, CHR 0x80, CHR 0xA9], [CHR 0xE2, CHR 0x80, CHR 0xAF],
      [CHR 0xE2, CHR 0x81, CHR 0x9F], [CHR 0xE3, CHR 0x80, CHR 0x80]]"

text \<open>The length in bytes of the space character \<open>s\<close> starts with (ends with), or 0.\<close>

definition space_prefix_len :: "string \<Rightarrow> nat" where
  "space_prefix_len s =
     (case s of
        [] \<Rightarrow> 0
      | c # cs \<Rightarrow>
          if asciiSpace c then 1
          else (case List.find (HasPrefix s) unicode_spaces of
                  None \<Rightarrow> 0 | Some p \<Rightarrow> length p))"

definition space_suffix_len :: "string \<Rightarrow> nat" where
  "space_suffix_len s =
     (if s = [] then 0
      else if asciiSpace (last s) then 1
      else (case List.find (HasSuffix s) unicode_spaces of
              None \<Rightarrow> 0 | Some p \<Rightarrow> length p))"

function TrimLeft :: "string \<Rightarrow> string" where
  "TrimLeft s = (if space_prefix_len s = 0 then s else TrimLeft (drop (space_prefix_len s) s))"
  by pat_completeness auto
termination
  by (relation "measure length") (auto simp: space_prefix_len_def split: list.splits)

function TrimRight :: "string \<Rightarrow> string" where
  "TrimRight s =
     (if space_suffix_len s = 0 then s else TrimRight (take (length s - space_suffix_len s) s))"
  by pat_completeness auto
termination
  by (relation "measure length") (auto simp: space_suffix_len_def split: if_splits)

declare TrimLeft.simps [simp del]
declare TrimRight.simps [simp del]

definition TrimSpace :: "string \<Rightarrow> string" where
  "TrimSpace s = TrimRight (TrimLeft s)"

text \<open>\<open>strings.Split(s, " ")\<close>: the pieces between the single spaces.\<close>

fun split_acc :: "string \<Rightarrow> string \<Rightarrow> string list" where
  "split_acc cur [] = [cur]"
| "split_acc cur (c # cs) =
     (if c = CHR 0x20 then cur # split_acc [] cs else split_acc (cur @ [c]) cs)"

definition Split :: "string \<Rightarrow> string list" where
  "Split s = split_acc [] s"

section \<open>sni.go: the TLS dissector\<close>

text \<open>
  Modelled from the spec: the package \<open>tls-dissector\<close> (\<open>ReadRecord\<close>,
  \<open>ClientHelloHandshake\<close>, \<open>Extension\<close>, \<open>ServerNameExtension\<close>,
  \<open>NewExtension\<close>) is not among the given sources. Its values are data: a record of
  the record layer, a ClientHello with its list of extensions, and an extension that is
  either the parsed \<open>ServerNameExtension\<close> (type \<open>0x0000\<close>) or any other
  extension with its type and payload, which is also what \<open>NewExtension\<close> builds.
  \<open>Bytes()\<close> is the wire form of an extension, the four bytes of type and length
  before the payload: the four bytes the server skips (\<open>ext.Bytes()[4:]\<close>).
\<close>

definition Handshake :: char where "Handshake = CHR 0x16"
definition ExtServerName :: "16 word" where "ExtServerName = 0"

datatype Extension =
    ServerNameExtension (NameType: char) (Name: string)
  | OtherExtension "16 word" bytes

definition NewExtension :: "16 word \<Rightarrow> bytes \<Rightarrow> Extension" where
  "NewExtension t data = OtherExtension t data"

fun Extension_Type :: "Extension \<Rightarrow> 16 word" where
  "Extension_Type (ServerNameExtension nt name) = ExtServerName"
| "Extension_Type (OtherExtension t data) = t"

fun Extension_Bytes :: "Extension \<Rightarrow> bytes" where
  "Extension_Bytes (ServerNameExtension nt name) =
     PutUint16 ExtServerName @ PutUint16 (word_of_nat (2 + 1 + 2 + length name))
       @ PutUint16 (word_of_nat (1 + 2 + length name)) @ [nt]
       @ PutUint16 (word_of_nat (length name)) @ name"
| "Extension_Bytes (OtherExtension t data) =
     PutUint16 t @ PutUint16 (word_of_nat (length data)) @ data"

record Record =
  Type :: char
  Version :: "16 word"
  Opaque :: bytes

record ClientHelloHandshake =
  ch_Version :: "16 word"
  Random :: bytes
  SessionID :: bytes
  CipherSuites :: "16 word list"
  CompressionMethods :: bytes
  Extensions :: "Extension list"

text \<open>
  Reading and writing the wire format is the dissector's: \<open>ReadRecord\<close> reads the
  first record from the bytes of a reader, \<open>Decode\<close> parses a ClientHello from a
  record's payload, \<open>Encode\<close> and \<open>WriteTo\<close> serialise them again.
\<close>

record dissector =
  ReadRecord :: "bytes \<Rightarrow> Record result"
  Decode :: "bytes \<Rightarrow> ClientHelloHandshake result"
  Encode :: "ClientHelloHandshake \<Rightarrow> bytes result"
  WriteTo :: "Record \<Rightarrow> bytes result"

subsection \<open>The wire format\<close>

text \<open>
  Modelled from the spec: the wire format is the standard TLS record layer and
  ClientHello (RFC 5246). A record is type, version and a 16-bit length before its
  payload; a ClientHello is the handshake type 1 and a 24-bit length before version, 32
  random bytes, session id, cipher suites, compression methods and the extensions, each
  extension with a 16-bit type and a 16-bit length. The concrete examples run on this
  instance of the dissector.
\<close>

definition Uint16 :: "bytes \<Rightarrow> nat" where
  "Uint16 b = of_char (b ! 0) * 256 + of_char (b ! 1)"

definition tls_ReadRecord :: "bytes \<Rightarrow> Record result" where
  "tls_ReadRecord b =
     (if b = [] then Err ErrEOF
      else if length b < 5 then Err ErrUnexpectedEOF
      else (let n = Uint16 (take 2 (drop 3 b))
            in if length b < 5 + n then Err ErrUnexpectedEOF
               else Ok \<lparr>Type = b ! 0, Version = word_of_nat (Uint16 (take 2 (drop 1 b))),
                        Opaque = take n (drop 5 b)\<rparr>))"

definition tls_WriteTo :: "Record \<Rightarrow> bytes result" where
  "tls_WriteTo rec =
     Ok (Type rec # PutUint16 (Version rec)
           @ PutUint16 (word_of_nat (length (Opaque rec))) @ Opaque rec)"

definition decodeExtension :: "nat \<Rightarrow> bytes \<Rightarrow> Extension result" where
  "decodeExtension t data =
     (if t = 0 then
        (if length data < 5 then Err ErrShortBuffer
         else (let n = Uint16 (take 2 (drop 3 data))
               in if length data < 5 + n then Err ErrShortBuffer
                  else Ok (ServerNameExtension (data ! 2) (take n (drop 5 data)))))
      else Ok (OtherExtension (word_of_nat t) data))"

function readExtensions :: "bytes \<Rightarrow> Extension list result" where
  "readExtensions b =
     (if b = [] then Ok []
      else if length b < 4 \<or> length b < 4 + Uint16 (take 2 (drop 2 b)) then Err ErrUnexpectedEOF
      else (case decodeExtension (Uint16 (take 2 b)) (take (Uint16 (take 2 (drop 2 b))) (drop 4 b)) of
              Ok e \<Rightarrow>
                (case readExtensions (drop (4 + Uint16 (take 2 (drop 2 b))) b) of
                   Ok es \<Rightarrow> Ok (e # es) | Err x \<Rightarrow> Err x | Panic \<Rightarrow> Panic)
            | Err x \<Rightarrow> Err x
            | Panic \<Rightarrow> Panic))"
  by pat_completeness auto
termination
  by (relation "measure length") auto

declare readExtensions.simps [simp del]

fun readCipherSuites :: "bytes \<Rightarrow> 16 word list" where
  "readCipherSuites (a # b # rest) = word_of_nat (Uint16 [a, b]) # readCipherSuites rest"
| "readCipherSuites rest = []"

text \<open>A field with a length prefix of \<open>k\<close> bytes: the field and the bytes after it.\<close>

definition read_vector :: "nat \<Rightarrow> bytes \<Rightarrow> (bytes \<times> bytes) result" where
  "read_vector k b =
     (if length b < k then Err ErrUnexpectedEOF
      else (let n = (if k = 1 then of_char (b ! 0) else Uint16 (take 2 b))
            in if length b < k + n then Err ErrUnexpectedEOF
               else Ok (take n (drop k b), drop (k + n) b)))"

definition tls_Decode :: "bytes \<Rightarrow> ClientHelloHandshake result" where
  "tls_Decode data =
     (if length data < 4 then Err ErrUnexpectedEOF
      else if data ! 0 \<noteq> CHR 0x01 then Err ErrBadType
      else (let n = of_char (data ! 1) * 65536 + of_char (data ! 2) * 256 + of_char (data ! 3)
            in if n < 34 then Err ErrBadLength
               else if length data < 4 + n then Err ErrUnexpectedEOF
               else (let b = take n (drop 4 data)
                     in if Uint16 (take 2 b) < 0x0303 then Err ErrBadVersion
                        else
                          result_bind (read_vector 1 (drop 34 b)) (\<lambda>(sid, b1).
                          result_bind (read_vector 2 b1) (\<lambda>(cs, b2).
                          result_bind (read_vector 1 b2) (\<lambda>(cm, b3).
                          result_bind (if b3 = [] then Ok ([], []) else read_vector 2 b3) (\<lambda>(eb, b4).
                          result_bind (readExtensions eb) (\<lambda>exts.
                          Ok \<lparr>ch_Version = word_of_nat (Uint16 (take 2 b)),
                              Random = take 32 (drop 2 b), SessionID = sid,
                              CipherSuites = readCipherSuites cs,
                              CompressionMethods = cm, Extensions = exts\<rparr>))))))))"

definition tls_Encode :: "ClientHelloHandshake \<Rightarrow> bytes result" where
  "tls_Encode h =
     (let eb = concat (map Extension_Bytes (Extensions h));
          cs = concat (map PutUint16 (CipherSuites h));
          body = PutUint16 (ch_Version h) @ Random h
                   @ [char_of (length (SessionID h))] @ SessionID h
                   @ PutUint16 (word_of_nat (length cs)) @ cs
                   @ [char_of (length (CompressionMethods h))] @ CompressionMethods h
                   @ (if Extensions h = [] then []
                      else PutUint16 (word_of_nat (length eb)) @ eb)
      in Ok (CHR 0x01 # char_of (length body div 65536) # char_of (length body div 256)
               # char_of (length body) # body))"

definition tls :: dissector where
  "tls = \<lparr>ReadRecord = tls_ReadRecord, Decode = tls_Decode,
          Encode = tls_Encode, WriteTo = tls_WriteTo\<rparr>"

section \<open>sni.go: \<open>readClientHelloRecord\<close>\<close>

text \<open>
  The first loop, run on the server side only. An extension of type \<open>0xFFFE\<close> whose
  payload (\<open>ext.Bytes()[4:]\<close>) decodes sets \<open>host\<close> and is dropped; one that does
  not decode sets \<open>host\<close> to the empty string that \<open>decodeServerName\<close> returns
  beside its error, and is kept like every other extension.
\<close>

fun strip_loop :: "Extension list \<Rightarrow> string \<Rightarrow> Extension list \<Rightarrow> Extension list \<times> string" where
  "strip_loop [] host extensions = (extensions, host)"
| "strip_loop (ext # rest) host extensions =
     (if Extension_Type ext = 0xFFFE then
        (case decodeServerName (drop 4 (Extension_Bytes ext)) of
           Inr h \<Rightarrow> strip_loop rest h extensions
         | Inl e \<Rightarrow> strip_loop rest [] (extensions @ [ext]))
      else strip_loop rest host (extensions @ [ext]))"

text \<open>
  The second loop stops at the first extension of type \<open>ExtServerName\<close>
  (\<open>seen\<close> are the extensions before it). The type assertion panics when that
  extension is not a \<open>ServerNameExtension\<close>. The client appends the \<open>0xFFFE\<close>
  extension with the encoded original name; the name is overwritten in place.
\<close>

fun sni_loop :: "Extension list \<Rightarrow> Extension list \<Rightarrow> string \<Rightarrow> bool
                   \<Rightarrow> (Extension list \<times> string) result" where
  "sni_loop seen [] host isClient = Ok (seen, host)"
| "sni_loop seen (ext # rest) host isClient =
     (if Extension_Type ext = ExtServerName then
        (case ext of
           ServerNameExtension nt name \<Rightarrow>
             (let host' = (if host = [] then name else host);
                  added = (if isClient
                           then [NewExtension 0xFFFE (encodeServerName name)] else []);
                  ext' = (if host' \<noteq> [] then ServerNameExtension nt host' else ext)
              in Ok (seen @ ext' # rest @ added, host'))
         | OtherExtension t data \<Rightarrow> Panic)
      else sni_loop (seen @ [ext]) rest host isClient)"

text \<open>The rewriting between \<open>Decode\<close> and \<open>Encode\<close>.\<close>

definition rewrite_hello :: "ClientHelloHandshake \<Rightarrow> string \<Rightarrow> bool
                               \<Rightarrow> (ClientHelloHandshake \<times> string) result" where
  "rewrite_hello clientHello host isClient =
     (case (if \<not> isClient then strip_loop (Extensions clientHello) host []
            else (Extensions clientHello, host)) of
        (exts, host1) \<Rightarrow>
          result_bind (sni_loop [] exts host1 isClient)
            (\<lambda>(exts', host2). Ok (clientHello\<lparr>Extensions := exts'\<rparr>, host2)))"

definition readClientHelloRecord :: "dissector \<Rightarrow> bytes \<Rightarrow> string \<Rightarrow> bool
                                       \<Rightarrow> (bytes \<times> string) result" where
  "readClientHelloRecord D r host isClient =
     result_bind (ReadRecord D r) (\<lambda>record.
     result_bind (Decode D (Opaque record)) (\<lambda>clientHello.
     result_bind (rewrite_hello clientHello host isClient) (\<lambda>(clientHello', host').
     result_bind (Encode D clientHello') (\<lambda>opq.
     result_bind (WriteTo D (record\<lparr>Opaque := opq\<rparr>)) (\<lambda>b.
     Ok (b, host'))))))"

section \<open>sni.go: \<open>sniClientConn\<close>\<close>

record sniClientConn =
  sni_addr :: string
  sni_host :: string
  obfuscated :: bool

definition CRLF :: string where
  "CRLF = [CHR 0x0D, CHR 0x0A]"

text \<open>
  \<open>br.ReadString('\n')\<close> on the bytes not yet read: the line with its newline and
  the bytes after it, or, when there is no newline, all the bytes and \<open>io.EOF\<close>
  (\<open>True\<close>).
\<close>

definition ReadString :: "bytes \<Rightarrow> string \<times> bytes \<times> bool" where
  "ReadString rest =
     (let s = takeWhile (\<lambda>c. c \<noteq> CHR 0x0A) rest
      in if length s = length rest then (rest, [], True)
         else (s @ [CHR 0x0A], drop (Suc (length s)) rest, False))"

text \<open>The loop of \<open>obfuscate\<close> over the lines of a plaintext HTTP request.\<close>

function http_loop :: "string \<Rightarrow> bytes \<Rightarrow> bytes \<Rightarrow> bytes" where
  "http_loop h buf rest =
     (case ReadString rest of
        (s, rest', eof) \<Rightarrow>
          if eof then (if s \<noteq> [] then buf @ s else buf)
          else if s = CRLF then buf @ s @ rest'
          else if HasPrefix s ''Host'' then
            buf @ ''Host: '' @ h @ CRLF
              @ ''Gost-Target: ''
              @ encodeServerName (TrimSpace (TrimSuffix (TrimPrefix s ''Host:'') CRLF)) @ CRLF
              @ rest'
          else http_loop h (buf @ s) rest')"
  by pat_completeness auto
termination
  apply (relation "measure (\<lambda>(h, buf, rest). length rest)")
   apply (auto simp: ReadString_def Let_def split: if_splits)
  subgoal for rest eof by (cases rest) auto
  done

declare http_loop.simps [simp del]

text \<open>
  \<open>obfuscate\<close> returns the bytes to write and the connection with its
  \<open>obfuscated\<close> flag. \<open>p[0]\<close> on an empty buffer panics.
\<close>

definition obfuscate :: "dissector \<Rightarrow> sniClientConn \<Rightarrow> bytes \<Rightarrow> bytes result \<times> sniClientConn" where
  "obfuscate D c p =
     (if sni_host c = [] then (Ok p, c)
      else if obfuscated c then (Ok p, c)
      else (case p of
              [] \<Rightarrow> (Panic, c)
            | p0 # ps \<Rightarrow>
                if p0 = Handshake then
                  (case readClientHelloRecord D p (sni_host c) True of
                     Ok (b, host) \<Rightarrow> (Ok b, c\<lparr>obfuscated := True\<rparr>)
                   | Err e \<Rightarrow> (Err e, c)
                   | Panic \<Rightarrow> (Panic, c))
                else (Ok (http_loop (sni_host c) [] p), c\<lparr>obfuscated := True\<rparr>)))"

text \<open>
  \<open>Write\<close>: \<open>W\<close> is the \<open>Write\<close> of the underlying connection, giving its error
  if it fails. \<open>Ok n\<close> is the return \<open>(n, nil)\<close> and \<open>Err e\<close> is \<open>(0, e)\<close>.
\<close>

definition sniClientConn_Write :: "dissector \<Rightarrow> (bytes \<Rightarrow> error option) \<Rightarrow> sniClientConn \<Rightarrow> bytes
                                     \<Rightarrow> nat result \<times> sniClientConn" where
  "sniClientConn_Write D W c p =
     (case obfuscate D c p of
        (Ok b, c') \<Rightarrow> (case W b of Some e \<Rightarrow> (Err e, c') | None \<Rightarrow> (Ok (length p), c'))
      | (Err e, c') \<Rightarrow> (Err e, c')
      | (Panic, c') \<Rightarrow> (Panic, c'))"

subsection \<open>What the server loop keeps\<close>

text \<open>
  An extension is an obfuscation extension when its type is \<open>0xFFFE\<close>; its payload
  is what the server decodes. The first loop keeps an extension unless it is an
  obfuscation extension whose payload decodes.
\<close>

definition is_obfs :: "Extension \<Rightarrow> bool" where
  "is_obfs e = (Extension_Type e = 0xFFFE)"

definition obfs_payload :: "Extension \<Rightarrow> error + string" where
  "obfs_payload e = decodeServerName (drop 4 (Extension_Bytes e))"

definition undecodable :: "Extension \<Rightarrow> bool" where
  "undecodable e = fails (obfs_payload e)"

definition kept :: "Extension \<Rightarrow> bool" where
  "kept e = (\<not> is_obfs e \<or> undecodable e)"

text \<open>The value of \<open>host\<close> after the first loop.\<close>

fun last_obfs_host :: "Extension list \<Rightarrow> string \<Rightarrow> string" where
  "last_obfs_host [] h = h"
| "last_obfs_host (e # es) h =
     (if is_obfs e then (case obfs_payload e of Inr x \<Rightarrow> last_obfs_host es x
                          | Inl err \<Rightarrow> last_obfs_host es [])
      else last_obfs_host es h)"

subsection \<open>Example records\<close>

text \<open>
  TLS 1.2 ClientHello records with one cipher suite and 32 random bytes:
  \<open>hello_real\<close> carries the server name \<open>real.example\<close>; \<open>hello_decoy\<close> carries
  \<open>decoy.example\<close> and, last, the \<open>0xFFFE\<close> extension with the encoded
  \<open>real.example\<close>; the \<open>junk\<close> records carry in addition a \<open>0xFFFE\<close> extension
  with the payload \<open>junk\<close>.
\<close>

definition client_random :: bytes where
  "client_random =
     [CHR 0x00, CHR 0x01, CHR 0x02, CHR 0x03, CHR 0x04, CHR 0x05, CHR 0x06, CHR 0x07,
      CHR 0x08, CHR 0x09, CHR 0x0A, CHR 0x0B, CHR 0x0C, CHR 0x0D, CHR 0x0E, CHR 0x0F,
      CHR 0x10, CHR 0x11, CHR 0x12, CHR 0x13, CHR 0x14, CHR 0x15, CHR 0x16, CHR 0x17,
      CHR 0x18, CHR 0x19, CHR 0x1A, CHR 0x1B, CHR 0x1C, CHR 0x1D, CHR 0x1E, CHR 0x1F]"

definition hello_real :: bytes where
  "hello_real =
     [CHR 0x16, CHR 0x03, CHR 0x01, CHR 0x00, CHR 0x44, CHR 0x01, CHR 0x00, CHR 0x00,
      CHR 0x40, CHR 0x03, CHR 0x03, CHR 0x00, CHR 0x01, CHR 0x02, CHR 0x03, CHR 0x04,
      CHR 0x05, CHR 0x06, CHR 0x07, CHR 0x08, CHR 0x09, CHR 0x0A, CHR 0x0B, CHR 0x0C,
      CHR 0x0D, CHR 0x0E, CHR 0x0F, CHR 0x10, CHR 0x11, CHR 0x12, CHR 0x13, CHR 0x14,
      CHR 0x15, CHR 0x16, CHR 0x17, CHR 0x18, CHR 0x19, CHR 0x1A, CHR 0x1B, CHR 0x1C,
      CHR 0x1D, CHR 0x1E, CHR 0x1F, CHR 0x00, CHR 0x00, CHR 0x02, CHR 0x13, CHR 0x01,
      CHR 0x01, CHR 0x00, CHR 0x00, CHR 0x15, CHR 0x00, CHR 0x00, CHR 0x00, CHR 0x11,
      CHR 0x00, CHR 0x0F, CHR 0x00, CHR 0x00, CHR 0x0C, CHR 0x72, CHR 0x65, CHR 0x61,
      CHR 0x6C, CHR 0x2E, CHR 0x65, CHR 0x78, CHR 0x61, CHR 0x6D, CHR 0x70, CHR 0x6C,
      CHR 0x65]"

definition hello_decoy_head :: bytes where
  "hello_decoy_head =
     [CHR 0x16, CHR 0x03, CHR 0x01, CHR 0x00, CHR 0x64, CHR 0x01, CHR 0x00, CHR 0x00,
      CHR 0x60, CHR 0x03, CHR 0x03, CHR 0x00, CHR 0x01, CHR 0x02, CHR 0x03, CHR 0x04,
      CHR 0x05, CHR 0x06, CHR 0x07, CHR 0x08, CHR 0x09, CHR 0x0A, CHR 0x0B, CHR 0x0C,
      CHR 0x0D, CHR 0x0E, CHR 0x0F, CHR 0x10, CHR 0x11, CHR 0x12, CHR 0x13, CHR 0x14,
      CHR 0x15, CHR 0x16, CHR 0x17, CHR 0x18, CHR 0x19, CHR 0x1A, CHR 0x1B, CHR 0x1C,
      CHR 0x1D, CHR 0x1E, CHR 0x1F, CHR 0x00, CHR 0x00, CHR 0x02, CHR 0x13, CHR 0x01,
      CHR 0x01, CHR 0x00, CHR 0x00, CHR 0x35, CHR 0x00, CHR 0x00, CHR 0x00, CHR 0x12,
      CHR 0x00, CHR 0x10, CHR 0x00, CHR 0x00, CHR 0x0D, CHR 0x64, CHR 0x65, CHR 0x63,
      CHR 0x6F, CHR 0x79, CHR 0x2E, CHR 0x65, CHR 0x78, CHR 0x61, CHR 0x6D, CHR 0x70,
      CHR 0x6C, CHR 0x65, CHR 0xFF, CHR 0xFE, CHR 0x00, CHR 0x1B]"

definition hello_decoy :: bytes where
  "hello_decoy = hello_decoy_head @ encodeServerName ''real.example''"

definition hello_junk :: bytes where
  "hello_junk =
     [CHR 0x16, CHR 0x03, CHR 0x01, CHR 0x00, CHR 0x4C, CHR 0x01, CHR 0x00, CHR 0x00,
      CHR 0x48, CHR 0x03, CHR 0x03, CHR 0x00, CHR 0x01, CHR 0x02, CHR 0x03, CHR 0x04,
      CHR 0x05, CHR 0x06, CHR 0x07, CHR 0x08, CHR 0x09, CHR 0x0A, CHR 0x0B, CHR 0x0C,
      CHR 0x0D, CHR 0x0E, CHR 0x0F, CHR 0x10, CHR 0x11, CHR 0x12, CHR 0x13, CHR 0x14,
      CHR 0x15, CHR 0x16, CHR 0x17, CHR 0x18, CHR 0x19, CHR 0x1A, CHR 0x1B, CHR 0x1C,
      CHR 0x1D, CHR 0x1E, CHR 0x1F, CHR 0x00, CHR 0x00, CHR 0x02, CHR 0x13, CHR 0x01,
      CHR 0x01, CHR 0x00, CHR 0x00, CHR 0x1D, CHR 0x00, CHR 0x00, CHR 0x00, CHR 0x11,
      CHR 0x00, CHR 0x0F, CHR 0x00, CHR 0x00, CHR 0x0C, CHR 0x72, CHR 0x65, CHR 0x61,
      CHR 0x6C, CHR 0x2E, CHR 0x65, CHR 0x78, CHR 0x61, CHR 0x6D, CHR 0x70, CHR 0x6C,
      CHR 0x65, CHR 0xFF, CHR 0xFE, CHR 0x00, CHR 0x04, CHR 0x6A, CHR 0x75, CHR 0x6E,
      CHR 0x6B]"

definition hello_junk_decoy_head :: bytes where
  "hello_junk_decoy_head =
     [CHR 0x16, CHR 0x03, CHR 0x01, CHR 0x00, CHR 0x6C, CHR 0x01, CHR 0x00, CHR 0x00,
      CHR 0x68, CHR 0x03, CHR 0x03, CHR 0x00, CHR 0x01, CHR 0x02, CHR 0x03, CHR 0x04,
      CHR 0x05, CHR 0x06, CHR 0x07, CHR 0x08, CHR 0x09, CHR 0x0A, CHR 0x0B, CHR 0x0C,
      CHR 0x0D, CHR 0x0E, CHR 0x0F, CHR 0x10, CHR 0x11, CHR 0x12, CHR 0x13, CHR 0x14,
      CHR 0x15, CHR 0x16, CHR 0x17, CHR 0x18, CHR 0x19, CHR 0x1A, CHR 0x1B, CHR 0x1C,
      CHR 0x1D, CHR 0x1E, CHR 0x1F, CHR 0x00, CHR 0x00, CHR 0x02, CHR 0x13, CHR 0x01,
      CHR 0x01, CHR 0x00, CHR 0x00, CHR 0x3D, CHR 0x00, CHR 0x00, CHR 0x00, CHR 0x12,
      CHR 0x00, CHR 0x10, CHR 0x00, CHR 0x00, CHR 0x0D, CHR 0x64, CHR 0x65, CHR 0x63,
      CHR 0x6F, CHR 0x79, CHR 0x2E, CHR 0x65, CHR 0x78, CHR 0x61, CHR 0x6D, CHR 0x70,
      CHR 0x6C, CHR 0x65, CHR 0xFF, CHR 0xFE, CHR 0x00, CHR 0x04, CHR 0x6A, CHR 0x75,
      CHR 0x6E, CHR 0x6B, CHR 0xFF, CHR 0xFE, CHR 0x00, CHR 0x1B]"

definition hello_junk_decoy :: bytes where
  "hello_junk_decoy = hello_junk_decoy_head @ encodeServerName ''real.example''"

definition ch_with :: "Extension list \<Rightarrow> ClientHelloHandshake" where
  "ch_with exts = \<lparr>ch_Version = 0x0303, Random = client_random, SessionID = [],
                    CipherSuites = [0x1301], CompressionMethods = [CHR 0x00], Extensions = exts\<rparr>"

text \<open>The request \<open>GET / HTTP/1.1\<close> with the header \<open>Host: blocked.example\<close>.\<close>

definition http_request :: bytes where
  "http_request =
     [CHR 0x47, CHR 0x45, CHR 0x54, CHR 0x20, CHR 0x2F, CHR 0x20, CHR 0x48, CHR 0x54,
      CHR 0x54, CHR 0x50, CHR 0x2F, CHR 0x31, CHR 0x2E, CHR 0x31, CHR 0x0D, CHR 0x0A,
      CHR 0x48, CHR 0x6F, CHR 0x73, CHR 0x74, CHR 0x3A, CHR 0x20, CHR 0x62, CHR 0x6C,
      CHR 0x6F, CHR 0x63, CHR 0x6B, CHR 0x65, CHR 0x64, CHR 0x2E, CHR 0x65, CHR 0x78,
      CHR 0x61, CHR 0x6D, CHR 0x70, CHR 0x6C, CHR 0x65, CHR 0x0D, CHR 0x0A, CHR 0x0D,
      CHR 0x0A]"

text \<open>An underlying connection whose \<open>Write\<close> succeeds.\<close>

definition conn_ok :: "bytes \<Rightarrow> error option" where
  "conn_ok b = None"

section \<open>bypass.go: \<open>Reload\<close>\<close>

text \<open>
  A \<open>bufio.Scanner\<close> over the reader is the list of lines \<open>Scan\<close> yields and the
  error \<open>Err\<close> reports once \<open>Scan\<close> has returned false.
\<close>

type_synonym scanner = "string list \<times> error option"

text \<open>The start of every loop body: cut the comment, tabs to spaces, trim.\<close>

definition clean_line :: "string \<Rightarrow> string" where
  "clean_line line =
     TrimSpace (map (\<lambda>c. if c = CHR 0x09 then CHR 0x20 else c)
                  (takeWhile (\<lambda>c. c \<noteq> CHR ''#'') line))"

text \<open>The trimmed, non-empty pieces of \<open>strings.Split(line, " ")\<close>.\<close>

definition line_fields :: "string \<Rightarrow> string list" where
  "line_fields line = filter (\<lambda>s. s \<noteq> []) (map TrimSpace (Split line))"

text \<open>\<open>strconv.ParseBool\<close>, with \<open>false\<close> where it reports an error.\<close>

definition ParseBool :: "string \<Rightarrow> bool" where
  "ParseBool str = (str \<in> set [''1'', ''t'', ''T'', ''TRUE'', ''true'', ''True''])"

text \<open>
  The loop of \<open>Reload\<close>. The struct \<open>bp\<close> and the local \<open>matchers\<close> are the
  state: the \<open>reload\<close> and \<open>reverse\<close> options are assigned to \<open>bp.period\<close> and
  \<open>bp.reversed\<close> as their lines are read. The flag of the result says that
  \<open>NewMatcher\<close> panicked, which ends the loop.
\<close>

fun bypass_reload_loop :: "('net, 'glob) golib \<Rightarrow> string list \<Rightarrow> ('net, 'glob) Bypass
    \<Rightarrow> ('net, 'glob) Matcher option list
    \<Rightarrow> bool \<times> ('net, 'glob) Bypass \<times> ('net, 'glob) Matcher option list" where
  "bypass_reload_loop L [] bp ms = (False, bp, ms)"
| "bypass_reload_loop L (l # ls) bp ms =
     (let line = clean_line l in
      if line = [] then bypass_reload_loop L ls bp ms
      else if HasPrefix line ''reload '' \<and> length (line_fields line) = 2
      then bypass_reload_loop L ls (bp\<lparr>bp_period := ParseDuration L (line_fields line ! 1)\<rparr>) ms
      else if HasPrefix line ''reverse '' \<and> length (line_fields line) = 2
      then bypass_reload_loop L ls (bp\<lparr>reversed := ParseBool (line_fields line ! 1)\<rparr>) ms
      else (case NewMatcher L line of
              Ok m \<Rightarrow> bypass_reload_loop L ls bp (ms @ [m])
            | Err e \<Rightarrow> (True, bp, ms)
            | Panic \<Rightarrow> (True, bp, ms)))"

text \<open>
  \<open>Reload\<close> returns its error (\<open>Ok None\<close> is \<open>nil\<close>); the second component is
  the struct it leaves behind. Only after the scanner has reported no error is
  \<open>bp.matchers\<close> assigned.
\<close>

definition Bypass_Reload :: "('net, 'glob) golib \<Rightarrow> ('net, 'glob) Bypass \<Rightarrow> scanner
    \<Rightarrow> error option result \<times> ('net, 'glob) Bypass" where
  "Bypass_Reload L bp sc =
     (case bypass_reload_loop L (fst sc) bp [] of
        (panicked, bp', ms) \<Rightarrow>
          if panicked then (Panic, bp')
          else (case snd sc of
                  Some err \<Rightarrow> (Ok (Some err), bp')
                | None \<Rightarrow> (Ok None, bp'\<lparr>matchers := ms\<rparr>)))"

section \<open>The resolver\<close>

record NameServer =
  Addr :: string
  Protocol :: string
  ns_Hostname :: string

record resolverCacheItem =
  IPs :: "IP list"
  ts :: "64 word"

text \<open>
  The resolver struct; \<open>mCache\<close> is the \<open>sync.Map\<close> from names to cache items. The
  field \<open>Resolver\<close> (the \<open>net.Resolver\<close> with its dial function) is left out.
\<close>

record resolver =
  Servers :: "NameServer list"
  mCache :: "string \<rightharpoonup> resolverCacheItem"
  Timeout :: "64 word"
  TTL :: "64 word"
  r_period :: "64 word"

definition DefaultResolverTimeout :: "64 word" where
  "DefaultResolverTimeout = 30 * 1000000000"

definition DefaultResolverTTL :: "64 word" where
  "DefaultResolverTTL = 60 * 1000000000"

definition resolver_init :: "resolver \<Rightarrow> resolver" where
  "resolver_init r =
     (let r1 = (if sint (Timeout r) \<le> 0 then r\<lparr>Timeout := DefaultResolverTimeout\<rparr> else r)
      in if TTL r1 = 0 then r1\<lparr>TTL := DefaultResolverTTL\<rparr> else r1)"

definition NewResolver :: "64 word \<Rightarrow> 64 word \<Rightarrow> NameServer list \<Rightarrow> resolver" where
  "NewResolver timeout ttl servers =
     resolver_init \<lparr>Servers = servers, mCache = Map.empty, Timeout = timeout, TTL = ttl,
                    r_period = 0\<rparr>"

text \<open>\<open>loadCache\<close> at the wall clock reading \<open>now\<close> (nanoseconds); \<open>[]\<close> is nil.\<close>

definition loadCache :: "int \<Rightarrow> resolver \<Rightarrow> string \<Rightarrow> IP list" where
  "loadCache now r name =
     (if sint (TTL r) < 0 then []
      else (case mCache r name of
              Some item \<Rightarrow> if time_Since now (ts item) > sint (TTL r) then [] else IPs item
            | None \<Rightarrow> []))"

text \<open>\<open>time.Now().Unix()\<close>: the seconds of the clock reading.\<close>

definition unix_seconds :: "int \<Rightarrow> 64 word" where
  "unix_seconds now = word_of_int (now div 1000000000)"

definition storeCache :: "int \<Rightarrow> resolver \<Rightarrow> string \<Rightarrow> IP list \<Rightarrow> resolver" where
  "storeCache now r name ips =
     (if sint (TTL r) < 0 \<or> name = [] \<or> length ips = 0 then r
      else r\<lparr>mCache := (mCache r)(name \<mapsto> \<lparr>IPs = ips, ts = unix_seconds now\<rparr>)\<rparr>)"

text \<open>The name server of a line with one, two, or more fields.\<close>

definition parse_NameServer :: "string list \<Rightarrow> NameServer" where
  "parse_NameServer ss =
     (if length ss = 1 then \<lparr>Addr = ss ! 0, Protocol = [], ns_Hostname = []\<rparr>
      else if length ss = 2 then \<lparr>Addr = ss ! 0, Protocol = ss ! 1, ns_Hostname = []\<rparr>
      else \<lparr>Addr = ss ! 0, Protocol = ss ! 1, ns_Hostname = ss ! 2\<rparr>)"

text \<open>
  The loop of the resolver's \<open>Reload\<close>: the options are assigned to the struct as
  their lines are read, every other line adds a name server to the local \<open>nss\<close>.
\<close>

fun resolver_reload_loop :: "('net, 'glob) golib \<Rightarrow> string list \<Rightarrow> resolver \<Rightarrow> NameServer list
    \<Rightarrow> resolver \<times> NameServer list" where
  "resolver_reload_loop L [] r nss = (r, nss)"
| "resolver_reload_loop L (l # ls) r nss =
     (let line = clean_line l; ss = line_fields line in
      if line = [] then resolver_reload_loop L ls r nss
      else if length ss = 0 then resolver_reload_loop L ls r nss
      else if length ss \<ge> 2 \<and> ToLower L (ss ! 0) = ''timeout''
      then resolver_reload_loop L ls (r\<lparr>Timeout := ParseDuration L (ss ! 1)\<rparr>) nss
      else if length ss \<ge> 2 \<and> ToLower L (ss ! 0) = ''ttl''
      then resolver_reload_loop L ls (r\<lparr>TTL := ParseDuration L (ss ! 1)\<rparr>) nss
      else if length ss \<ge> 2 \<and> ToLower L (ss ! 0) = ''reload''
      then resolver_reload_loop L ls (r\<lparr>r_period := ParseDuration L (ss ! 1)\<rparr>) nss
      else resolver_reload_loop L ls r (nss @ [parse_NameServer ss]))"

definition resolver_Reload :: "('net, 'glob) golib \<Rightarrow> resolver \<Rightarrow> scanner
    \<Rightarrow> error option \<times> resolver" where
  "resolver_Reload L r sc =
     (case resolver_reload_loop L (fst sc) r [] of
        (r', nss) \<Rightarrow>
          (case snd sc of
             Some err \<Rightarrow> (Some err, r')
           | None \<Rightarrow> (None, r'\<lparr>Servers := nss\<rparr>)))"

text \<open>The timeout \<open>Resolve\<close> gives to its lookup: \<open>timeout := r.Timeout\<close>.\<close>

definition Resolve_timeout :: "resolver \<Rightarrow> 64 word" where
  "Resolve_timeout r = Timeout r"

text \<open>
  A library for the concrete examples: it agrees with Go on the few strings the
  examples use (\<open>ParseDuration("0s") = 0\<close>, lower-case ASCII words are their own lower case)
  and parses no address.
\<close>

definition example_lib :: "(unit, unit) golib" where
  "example_lib = \<lparr>ParseIP = (\<lambda>s. None), ParseCIDR = (\<lambda>s. None), NetContains = (\<lambda>n a. False),
                  GlobCompile = (\<lambda>s. Some ()), GlobMatch = (\<lambda>g s. False),
                  SplitHostPort = (\<lambda>s. ([], [])), Atoi = (\<lambda>s. 0),
                  ParseDuration = (\<lambda>s. 0), ToLower = (\<lambda>s. s)\<rparr>"

section \<open>Theorems\<close>

text \<open>
  C9: \<open>Contains\<close> on a nil \<open>Bypass\<close> is false whatever the address, and on a
  \<open>Bypass\<close> with an empty matcher list it is exactly the \<open>reversed\<close> flag.
\<close>

theorem Contains_nil_and_empty:
  "Contains L None addr = False \<and>
   Contains L (Some \<lparr>matchers = [], reversed = r, bp_period = p\<rparr>) addr = r"
  by (simp add: Contains_def)

subsection \<open>Hosts\<close>

lemma alias_loop_no_match: "name \<notin> set as \<Longrightarrow> alias_loop as name hip cur = cur"
  by (induction as) auto

lemma lookup_loop_no_match:
  "\<forall>h \<in> set hs. \<not> host_matches h name \<Longrightarrow> lookup_loop hs name cur = cur"
  by (induction hs arbitrary: cur) (auto simp: host_matches_def alias_loop_no_match)

lemma Lookup_no_match:
  "\<forall>h \<in> set (hosts t). \<not> host_matches h name \<Longrightarrow> Lookup (Some t) name = None"
  by (simp add: Lookup_def lookup_loop_no_match)

text \<open>
  C5: \<open>Lookup\<close> should return the IP of the first entry whose hostname or alias equals
  the name. With two entries that both list the alias \<open>svc\<close>, the code returns the IP
  of the second one: the \<open>break\<close> of the alias loop does not leave the outer loop, so
  a later entry overwrites the hit. The first-match reading gives the first entry's IP.
\<close>

theorem Lookup_alias_hit_overwritten:
  "Lookup (Some \<lparr>hosts = [\<lparr>IP = Some [10, 0, 0, 1], Hostname = ''alpha'', Aliases = [''svc'']\<rparr>,
                           \<lparr>IP = Some [10, 0, 0, 2], Hostname = ''beta'', Aliases = [''svc'']\<rparr>],
                  hosts_period = 0\<rparr>) ''svc'' = Some [10, 0, 0, 2]
   \<and> first_match_lookup
        (Some \<lparr>hosts = [\<lparr>IP = Some [10, 0, 0, 1], Hostname = ''alpha'', Aliases = [''svc'']\<rparr>,
                         \<lparr>IP = Some [10, 0, 0, 2], Hostname = ''beta'', Aliases = [''svc'']\<rparr>],
                hosts_period = 0\<rparr>) ''svc'' = Some [10, 0, 0, 1]"
  by (simp add: Lookup_def first_match_lookup_def host_matches_def)

subsection \<open>FailFilter\<close>

lemma map_Clone: "map Clone xs = xs"
  by (induction xs) (simp_all add: Clone_def)

lemma ucast_small:
  fixes m :: "64 word"
  assumes "0 < sint m" "sint m < 2 ^ 32"
  shows "uint (ucast m :: 32 word) = sint m"
proof -
  have lt: "sint m < 2 ^ 64" using assms(2) by simp
  have "uint m = take_bit 64 (sint m)" by (simp add: uint_sint)
  also have "\<dots> = sint m" using assms(1) lt by (simp add: take_bit_int_eq_self)
  finally have u: "uint m = sint m" .
  have "uint (ucast m :: 32 word) = take_bit 32 (uint m)" by (simp add: unsigned_ucast_eq)
  also have "\<dots> = sint m" using assms u by (simp add: take_bit_int_eq_self)
  finally show ?thesis .
qed

text \<open>
  For every \<open>sec\<close> that \<open>time.Unix\<close> stores without wrapping, the elapsed time is
  the difference to the clock reading, saturated to the range of a \<open>Duration\<close>.
\<close>

lemma time_Unix_in_range:
  assumes "sint sec + unixToInternal < 2 ^ 63"
  shows "time_Unix sec = sint sec + unixToInternal"
proof -
  have lo: "- (2 ^ 63) \<le> sint sec" using sint_ge[of sec] by simp
  have "sint (sec + word_of_int unixToInternal)
          = signed_take_bit 63 (sint sec + sint (word_of_int unixToInternal :: 64 word))"
    by (simp add: sint_word_ariths)
  also have "sint (word_of_int unixToInternal :: 64 word) = unixToInternal"
    by (simp add: unixToInternal_def)
  also have "signed_take_bit 63 (sint sec + unixToInternal) = sint sec + unixToInternal"
    using assms lo by (intro signed_take_bit_int_eq_self) (simp_all add: unixToInternal_def)
  finally show ?thesis by (simp add: time_Unix_def)
qed

lemma time_Since_in_range:
  assumes "sint sec + unixToInternal < 2 ^ 63"
  shows "time_Since now sec = max minDuration (min maxDuration (now - sint sec * 1000000000))"
proof -
  define q where "q = now div 1000000000"
  define m where "m = now mod 1000000000"
  have now: "now = q * 1000000000 + m" by (simp add: q_def m_def)
  have "(q + unixToInternal - (sint sec + unixToInternal)) * 1000000000 + m
        = now - sint sec * 1000000000"
    unfolding now by (simp add: algebra_simps)
  then have eq: "(now div 1000000000 + unixToInternal - (sint sec + unixToInternal)) * 1000000000
                   + now mod 1000000000 = now - sint sec * 1000000000"
    unfolding q_def m_def .
  show ?thesis by (simp only: time_Since_def time_Unix_in_range[OF assms] eq)
qed

text \<open>
  Above that bound the stored seconds wrap to a time long before year 1 and the
  elapsed time is the largest \<open>Duration\<close>.
\<close>

lemma time_Since_wrapped:
  "time_Since 100000000005 0x7FFFFFFFFFFFFFFF = maxDuration"
  by (simp add: time_Since_def time_Unix_def unixToInternal_def minDuration_def maxDuration_def)

text \<open>
  Where \<open>MaxFails\<close> fits 32 bits, \<open>Filter\<close> drops exactly the nodes of the
  specification's condition.
\<close>

lemma FailFilter_in_range:
  fixes nodes :: "'a Node list"
  assumes "1 < length nodes" "0 < sint (MaxFails f)" "sint (MaxFails f) < 2 ^ 32"
  shows "FailFilter_Filter now f nodes = filter (\<lambda>n. \<not> spec_drops now f n) nodes"
proof -
  have "fail_keep now f = (\<lambda>n :: 'a Node. \<not> spec_drops now f n)"
    using assms(2,3)
    by (intro ext) (auto simp: fail_keep_def spec_drops_def word_less_def ucast_small)
  then show ?thesis
    using assms by (simp add: FailFilter_Filter_def map_Clone)
qed

text \<open>
  C8: \<open>Filter\<close> should drop a node iff \<open>failCount \<ge> MaxFails\<close> and the node failed
  less than \<open>FailTimeout\<close> ago. With \<open>MaxFails = 2^32 + 1\<close> the conversion
  \<open>uint32(f.MaxFails)\<close> gives 1, and a node with one failure five nanoseconds ago is
  dropped although its \<open>failCount\<close> is far below \<open>MaxFails\<close>.
\<close>

theorem FailFilter_MaxFails_truncated:
  "FailFilter_Filter 100000000005 \<lparr>MaxFails = 4294967297, FailTimeout = 30000000000\<rparr>
     [\<lparr>payload = ''a'', failCount = 1, failTime = 100\<rparr>,
      \<lparr>payload = ''b'', failCount = 0, failTime = 0\<rparr>]
   = [\<lparr>payload = ''b'', failCount = 0, failTime = 0\<rparr>]
   \<and> \<not> spec_drops 100000000005 \<lparr>MaxFails = 4294967297, FailTimeout = 30000000000\<rparr>
         \<lparr>payload = ''a'', failCount = 1, failTime = 100\<rparr>"
  by (simp add: FailFilter_Filter_def fail_keep_def spec_drops_def time_Since_def time_Unix_def
      unixToInternal_def Clone_def minDuration_def maxDuration_def)

subsection \<open>AutoHandler\<close>

text \<open>
  Reading moves bytes and never loses or reorders them: what a read returns followed
  by what is left is what was there before.
\<close>

lemma Conn_Read_stream:
  assumes "Conn_Read n c = ((bs, e), c')"
  shows "bs @ concat (pending c') = concat (pending c)"
    and "e \<noteq> None \<Longrightarrow> bs = []"
    and "closed c' = closed c"
  using assms by (auto simp: Conn_Read_def split: list.splits if_splits)

lemma fill_loop_cases:
  assumes "fill_loop i r c = (r', c')"
  shows "rd_buf r' @ concat (pending c') = rd_buf r @ concat (pending c)
         \<and> closed c' = closed c
         \<and> (rd_err r' \<noteq> None \<and> rd_buf r' = rd_buf r
            \<or> rd_err r' = rd_err r \<and> length (rd_buf r) < length (rd_buf r'))"
  using assms
proof (induction i arbitrary: c)
  case 0
  then show ?case by auto
next
  case (Suc i)
  obtain bs e c1 where rd: "Conn_Read (defaultBufSize - length (rd_buf r)) c = ((bs, e), c1)"
    by (metis prod.exhaust)
  note st = Conn_Read_stream[OF rd]
  show ?case
  proof (cases "e \<noteq> None")
    case True
    then show ?thesis using Suc.prems rd st by auto
  next
    case False
    show ?thesis
    proof (cases "bs = []")
      case True
      then have "fill_loop i r c1 = (r', c')" using Suc.prems rd False by simp
      from Suc.IH[OF this] show ?thesis using st True by simp
    next
      case False
      then show ?thesis using Suc.prems rd st \<open>\<not> e \<noteq> None\<close> by auto
    qed
  qed
qed

lemma fill_loop_pos:
  "0 < i \<Longrightarrow> fill_loop i r c =
     (case Conn_Read (defaultBufSize - length (rd_buf r)) c of
        ((bs, e), c') \<Rightarrow>
          if e \<noteq> None then (r\<lparr>rd_buf := rd_buf r @ bs, rd_err := e\<rparr>, c')
          else if bs \<noteq> [] then (r\<lparr>rd_buf := rd_buf r @ bs\<rparr>, c')
          else fill_loop (i - 1) r c')"
  by (cases i) (auto split: prod.splits)

text \<open>
  On a fresh reader \<open>Peek(1)\<close> is one \<open>fill\<close>: it ends with a byte in the buffer
  or with the error set.
\<close>

lemma Peek_loop_fresh:
  assumes "fill r c = (r', c')" "rd_buf r = []" "rd_err r = None"
  shows "Peek_loop 1 r c = (r', c')"
    and "rd_buf r' @ concat (pending c') = concat (pending c)"
    and "closed c' = closed c"
    and "rd_err r' \<noteq> None \<and> rd_buf r' = [] \<or> rd_err r' = None \<and> rd_buf r' \<noteq> []"
proof -
  have fl: "fill_loop maxConsecutiveEmptyReads r c = (r', c')"
    using assms(1) by (simp add: fill_def)
  note cs = fill_loop_cases[OF fl]
  show "rd_buf r' @ concat (pending c') = concat (pending c)" using cs assms(2) by simp
  show "closed c' = closed c" using cs by simp
  show d: "rd_err r' \<noteq> None \<and> rd_buf r' = [] \<or> rd_err r' = None \<and> rd_buf r' \<noteq> []"
    using cs assms(2,3) by auto
  have stop: "Peek_loop 1 r' c' = (r', c')"
    using d by (subst Peek_loop.simps) (auto simp: Suc_le_eq)
  show "Peek_loop 1 r c = (r', c')"
    using assms stop by (subst Peek_loop.simps) (simp add: defaultBufSize_def)
qed

lemma Peek_fresh:
  assumes "Peek 1 (NewReader conn) conn = ((p, None), rd', conn')"
  shows "rd_err rd' = None" and "rd_buf rd' \<noteq> []" and "p = take 1 (rd_buf rd')"
    and "rd_buf rd' @ concat (pending conn') = concat (pending conn)"
    and "closed conn' = closed conn"
proof -
  obtain r1 c1 where f: "fill (NewReader conn) conn = (r1, c1)" by (metis prod.exhaust)
  note pl = Peek_loop_fresh[OF f, of] 
  have fresh: "rd_buf (NewReader conn) = []" "rd_err (NewReader conn) = None"
    by (simp_all add: NewReader_def)
  note pl = Peek_loop_fresh[OF f fresh]
  have eq: "rd' = r1 \<and> conn' = c1 \<and> rd_buf r1 \<noteq> [] \<and> p = take 1 (rd_buf r1)"
    using assms pl(1) by (auto simp: Peek_def split: if_splits)
  then show "rd_buf rd' \<noteq> []" and "p = take 1 (rd_buf rd')" by simp_all
  show "rd_err rd' = None" using eq pl(4) by auto
  show "rd_buf rd' @ concat (pending conn') = concat (pending conn)" using eq pl(2) by simp
  show "closed conn' = closed conn" using eq pl(3) by simp
qed

lemma take_drop_take:
  assumes "n \<le> d"
  shows "take n xs @ drop n (take d xs) @ drop d xs = xs"
proof -
  have "take n (take d xs) = take n xs" using assms by (simp add: min_def)
  then have "take n xs @ drop n (take d xs) = take d xs"
    using append_take_drop_id[of n "take d xs"] by simp
  then have "(take n xs @ drop n (take d xs)) @ drop d xs = xs" by simp
  then show ?thesis by simp
qed

lemma bufferdConn_Read_stream:
  assumes "bufferdConn_Read n cc = ((bs, e), cc')" "rd_err (br cc) = None" "0 < n"
  shows "e = None \<Longrightarrow> rd_err (br cc') = None"
    and "e = None \<Longrightarrow> bs @ rd_buf (br cc') @ concat (pending (bc_Conn cc'))
                         = rd_buf (br cc) @ concat (pending (bc_Conn cc))"
    and "e \<noteq> None \<Longrightarrow> bs = [] \<and> rd_buf (br cc) = [] \<and> pending (bc_Conn cc) = []"
  using assms
  by (auto simp: bufferdConn_Read_def Reader_Read_def Conn_Read_def take_drop_take
      split: if_splits list.splits)

text \<open>
  Reading through the \<open>bufferdConn\<close> to the end yields the buffered bytes and then
  what is left on the connection.
\<close>

lemma read_stream_all:
  "rd_err (br cc) = None \<Longrightarrow> 0 < n
   \<Longrightarrow> read_stream n cc = rd_buf (br cc) @ concat (pending (bc_Conn cc))"
proof (induction n cc rule: read_stream.induct)
  case (1 n cc)
  obtain bs e cc' where rd: "bufferdConn_Read n cc = ((bs, e), cc')"
    by (metis prod.exhaust)
  note st = bufferdConn_Read_stream[OF rd "1.prems"]
  show ?case
  proof (cases e)
    case None
    have "read_stream n cc' = rd_buf (br cc') @ concat (pending (bc_Conn cc'))"
      using "1.IH"[of "(bs, e)" cc' bs e] "1.prems" rd None st(1) by simp
    then show ?thesis using rd None st(2) "1.prems"(2)
      by (subst read_stream.simps) simp
  next
    case (Some err)
    then show ?thesis using rd st(3) "1.prems"(2)
      by (subst read_stream.simps) simp
  qed
qed

text \<open>
  When the first read of the connection delivers bytes, \<open>Peek(1)\<close> succeeds with the
  first of them and has moved up to a buffer's worth of them out of the connection.
\<close>

lemma Peek_first_chunk:
  "Peek 1 (NewReader \<lparr>pending = (b # bs) # chunks, closed = cl\<rparr>)
          \<lparr>pending = (b # bs) # chunks, closed = cl\<rparr>
   = (([b], None),
      \<lparr>rd_buf = take defaultBufSize (b # bs), rd_err = None\<rparr>,
      \<lparr>pending = (if length (b # bs) \<le> defaultBufSize then chunks
                  else drop defaultBufSize (b # bs) # chunks), closed = cl\<rparr>)"
proof -
  let ?c = "\<lparr>pending = (b # bs) # chunks, closed = cl\<rparr>"
  let ?r' = "\<lparr>rd_buf = take defaultBufSize (b # bs), rd_err = None\<rparr>"
  let ?c' = "\<lparr>pending = (if length (b # bs) \<le> defaultBufSize then chunks
                  else drop defaultBufSize (b # bs) # chunks), closed = cl\<rparr>"
  have "fill (NewReader ?c) ?c = (?r', ?c')"
    unfolding fill_def maxConsecutiveEmptyReads_def
    by (subst fill_loop_pos) (simp_all add: NewReader_def Conn_Read_def defaultBufSize_def)
  from Peek_loop_fresh(1)[OF this] show ?thesis
    by (simp add: Peek_def NewReader_def defaultBufSize_def)
qed

text \<open>An empty connection at its end: the peek fails and the connection is closed.\<close>

lemma autoHandler_peek_fails:
  "autoHandler_Handle options \<lparr>pending = [], closed = False\<rparr>
   = PeekFailed ErrEOF \<lparr>pending = [], closed = True\<rparr>"
proof -
  let ?c = "\<lparr>pending = [], closed = False\<rparr>"
  have "fill (NewReader ?c) ?c = (\<lparr>rd_buf = [], rd_err = Some ErrEOF\<rparr>, ?c)"
    unfolding fill_def maxConsecutiveEmptyReads_def
    by (subst fill_loop_pos) (simp_all add: NewReader_def Conn_Read_def defaultBufSize_def)
  from Peek_loop_fresh(1)[OF this] show ?thesis
    by (simp add: autoHandler_Handle_def Peek_def NewReader_def Close_def defaultBufSize_def)
qed

text \<open>
  C4: when the peek of one byte succeeds with byte \<open>b\<close>, \<open>Handle\<close> routes to the
  SOCKS4 handler when \<open>b = 0x04\<close> and no users are configured, closes the connection
  without routing when \<open>b = 0x04\<close> and users are configured, routes to the SOCKS5
  handler when \<open>b = 0x05\<close>, and to the HTTP handler for every other byte. The
  \<open>bufferdConn\<close> handed on, read to the end with a buffer of any size \<open>n > 0\<close>,
  yields the whole stream that was on the connection before the peek, which starts
  with \<open>b\<close>; the connection inside it holds strictly less than that stream, the peek
  having moved bytes into the reader's buffer.
\<close>

theorem autoHandler_dispatch:
  assumes "Peek 1 (NewReader conn) conn = (([b], None), rd', conn')" and "0 < n"
  shows "autoHandler_Handle options conn =
           (if b = CHR 0x04 then
              (if Users options = []
               then Routed (socks4Handler options) \<lparr>bc_Conn = conn', br = rd'\<rparr>
               else Refused \<lparr>bc_Conn = conn'\<lparr>closed := True\<rparr>, br = rd'\<rparr>)
            else if b = CHR 0x05
            then Routed (socks5Handler options) \<lparr>bc_Conn = conn', br = rd'\<rparr>
            else Routed (httpHandler options) \<lparr>bc_Conn = conn', br = rd'\<rparr>)
         \<and> read_stream n \<lparr>bc_Conn = conn', br = rd'\<rparr> = concat (pending conn)
         \<and> hd (concat (pending conn)) = b
         \<and> length (concat (pending conn')) < length (concat (pending conn))"
proof -
  note pf = Peek_fresh[OF assms(1)]
  have "read_stream n \<lparr>bc_Conn = conn', br = rd'\<rparr> = concat (pending conn)"
    using read_stream_all[of "\<lparr>bc_Conn = conn', br = rd'\<rparr>" n] pf(1,4) assms(2) by simp
  moreover have "hd (concat (pending conn)) = b"
    using pf(2,3) pf(4)[symmetric] by (cases "rd_buf rd'") auto
  moreover have "length (concat (pending conn')) < length (concat (pending conn))"
    using pf(2) pf(4)[symmetric] by simp
  moreover have "autoHandler_Handle options conn =
           (if b = CHR 0x04 then
              (if Users options = []
               then Routed (socks4Handler options) \<lparr>bc_Conn = conn', br = rd'\<rparr>
               else Refused \<lparr>bc_Conn = conn'\<lparr>closed := True\<rparr>, br = rd'\<rparr>)
            else if b = CHR 0x05
            then Routed (socks5Handler options) \<lparr>bc_Conn = conn', br = rd'\<rparr>
            else Routed (httpHandler options) \<lparr>bc_Conn = conn', br = rd'\<rparr>)"
    using assms(1) by (simp add: autoHandler_Handle_def Ver4_def Ver5_def Close_def Let_def)
  ultimately show ?thesis by simp
qed

text \<open>
  The SOCKS5 greeting \<open>05 01 00\<close> arriving as the chunks \<open>05\<close> and \<open>01 00\<close>, with
  users configured: the peek moves \<open>05\<close> into the buffer, the connection keeps
  \<open>01 00\<close>, and the SOCKS5 handler reads \<open>05 01 00\<close>.
\<close>

theorem autoHandler_dispatch_witness:
  "Peek 1 (NewReader \<lparr>pending = [[CHR 0x05], [CHR 0x01, CHR 0x00]], closed = False\<rparr>)
          \<lparr>pending = [[CHR 0x05], [CHR 0x01, CHR 0x00]], closed = False\<rparr>
     = (([CHR 0x05], None), \<lparr>rd_buf = [CHR 0x05], rd_err = None\<rparr>,
        \<lparr>pending = [[CHR 0x01, CHR 0x00]], closed = False\<rparr>)
   \<and> autoHandler_Handle \<lparr>Users = [''u:p'']\<rparr>
        \<lparr>pending = [[CHR 0x05], [CHR 0x01, CHR 0x00]], closed = False\<rparr>
     = Routed (socks5Handler \<lparr>Users = [''u:p'']\<rparr>)
         \<lparr>bc_Conn = \<lparr>pending = [[CHR 0x01, CHR 0x00]], closed = False\<rparr>,
          br = \<lparr>rd_buf = [CHR 0x05], rd_err = None\<rparr>\<rparr>
   \<and> read_stream 2 \<lparr>bc_Conn = \<lparr>pending = [[CHR 0x01, CHR 0x00]], closed = False\<rparr>,
                     br = \<lparr>rd_buf = [CHR 0x05], rd_err = None\<rparr>\<rparr>
     = [CHR 0x05, CHR 0x01, CHR 0x00]"
  using autoHandler_dispatch
    [of "\<lparr>pending = [[CHR 0x05], [CHR 0x01, CHR 0x00]], closed = False\<rparr>" "CHR 0x05"
        "\<lparr>rd_buf = [CHR 0x05], rd_err = None\<rparr>"
        "\<lparr>pending = [[CHR 0x01, CHR 0x00]], closed = False\<rparr>" 2 "\<lparr>Users = [''u:p'']\<rparr>"]
    Peek_first_chunk [of "CHR 0x05" "[]" "[[CHR 0x01, CHR 0x00]]" False]
  by (simp add: defaultBufSize_def)

subsection \<open>The obfuscation codec\<close>

lemma len_enc: "length encodeURL = 64" by (simp add: encodeURL_def)
lemma dist_enc: "distinct encodeURL" by (simp add: encodeURL_def)

lemma upt64: "[0..<64] = [0..<length encodeURL]" by (simp add: len_enc)

lemma decodeMap_encode: "v < 64 \<Longrightarrow> decodeMap (encodeURL ! v) = Some v"
  unfolding decodeMap_def upt64
  by (subst map_of_zip_nth) (simp_all add: dist_enc len_enc)

lemma decodeMap_nl: "decodeMap (CHR 0x0A) = None" "decodeMap (CHR 0x0D) = None"
  by (simp_all add: decodeMap_def encodeURL_def map_of_zip_is_None)

lemma encode_not_nl: "v < 64 \<Longrightarrow> encodeURL ! v \<noteq> CHR 0x0A \<and> encodeURL ! v \<noteq> CHR 0x0D"
  using decodeMap_encode[of v] decodeMap_nl by auto

lemma sextets_lt: "v \<in> set (sextets bs) \<Longrightarrow> v < 64"
  by (induction bs rule: sextets.induct) (auto simp: Let_def)

lemma those_map_Some:
  "(\<And>v. v \<in> set vs \<Longrightarrow> f (g v) = Some v) \<Longrightarrow> those (map f (map g vs)) = Some vs"
  by (induction vs) simp_all

lemma of_char_lt: "(of_char c :: nat) < 256"
  by (metis of_char_mod_256 mod_less_divisor zero_less_numeral)

lemma digits64:
  fixes N A1 A2 A3 r0 r1 r2 :: nat
  assumes "N = A1 * 64 + r0" "A1 = A2 * 64 + r1" "A2 = A3 * 64 + r2"
  shows "A3 * 262144 + r2 * 4096 + r1 * 64 + r0 = N"
  using assms by simp

lemma drop0:
  fixes x r N :: nat
  shows "x + r = N \<Longrightarrow> r = 0 \<Longrightarrow> x = N"
  by simp

lemma drop00:
  fixes x y s r N :: nat
  shows "x + y + s * 64 + r = N \<Longrightarrow> s = 0 \<Longrightarrow> r = 0 \<Longrightarrow> x + y = N"
  by simp

lemma digits256_abs:
  fixes N A1 A2 A3 r0 r1 r2 :: nat
  assumes "N = A1 * 256 + r0" "A1 = A2 * 256 + r1" "A2 = A3 * 256 + r2"
  shows "r0 + r1 * 256 + r2 * 65536 + A3 * 16777216 = N"
  using assms by simp

lemma quad:
  fixes N :: nat
  assumes "N < 16777216"
  shows "N div 262144 mod 64 * 262144 + N div 4096 mod 64 * 4096 + N div 64 mod 64 * 64 + N mod 64 = N"
proof -
  have e0: "N = N div 64 * 64 + N mod 64" by simp
  have "N div 4096 = N div 64 div 64" using div_mult2_eq[of N 64 64] by simp
  then have e1: "N div 64 = N div 4096 * 64 + N div 64 mod 64" by simp
  have "N div 262144 = N div 4096 div 64" using div_mult2_eq[of N 4096 64] by simp
  then have e2: "N div 4096 = N div 262144 * 64 + N div 4096 mod 64" by simp
  have "N div 262144 < 64" using assms by (simp add: div_less_iff_less_mult)
  then have e3: "N div 262144 mod 64 = N div 262144" by simp
  show ?thesis unfolding e3 using e0 e1 e2 by (rule digits64)
qed

lemma b3:
  fixes a b c :: nat
  assumes "b < 256" "c < 256"
  shows "(a * 65536 + b * 256 + c) div 65536 = a"
    and "(a * 65536 + b * 256 + c) div 256 mod 256 = b"
    and "(a * 65536 + b * 256 + c) mod 256 = c"
proof -
  show "(a * 65536 + b * 256 + c) div 65536 = a"
    using assms by (intro div_nat_eqI) simp_all
  have "(a * 65536 + b * 256 + c) div 256 = a * 256 + b"
    using assms by (intro div_nat_eqI) simp_all
  then show "(a * 65536 + b * 256 + c) div 256 mod 256 = b"
    using assms by simp
  have "a * 65536 + b * 256 + c = (a * 256 + b) * 256 + c" by simp
  then show "(a * 65536 + b * 256 + c) mod 256 = c"
    using assms by (simp only: mod_mult_self3 mod_less)
qed

lemma tri:
  fixes a b :: nat
  assumes "a < 256" "b < 256"
  shows "(a * 65536 + b * 256) div 262144 mod 64 * 262144 + (a * 65536 + b * 256) div 4096 mod 64 * 4096
     + (a * 65536 + b * 256) div 64 mod 64 * 64 = a * 65536 + b * 256"
proof -
  let ?N = "a * 65536 + b * 256"
  have lt: "?N < 16777216" using assms by simp
  have "?N = 64 * (a * 1024 + b * 4)" by simp
  then have z: "?N mod 64 = 0" by (simp only: mod_mult_self1_is_0)
  show ?thesis by (rule drop0[OF quad[OF lt] z])
qed

lemma duo:
  fixes a :: nat
  assumes "a < 256"
  shows "(a * 65536) div 262144 mod 64 * 262144 + (a * 65536) div 4096 mod 64 * 4096 = a * 65536"
proof -
  let ?N = "a * 65536"
  have lt: "?N < 16777216" using assms by simp
  have "?N = 64 * (a * 1024)" by simp
  then have z0: "?N mod 64 = 0" by (simp only: mod_mult_self1_is_0)
  have "?N div 64 = a * 1024" by simp
  moreover have "a * 1024 = 64 * (a * 16)" by simp
  ultimately have z1: "?N div 64 mod 64 = 0" by (simp only: mod_mult_self1_is_0)
  show ?thesis by (rule drop00[OF quad[OF lt] z1 z0])
qed

lemma digits256:
  fixes n :: nat
  assumes "n < 4294967296"
  shows "n mod 256 + n div 256 mod 256 * 256 + n div 65536 mod 256 * 65536
          + n div 16777216 mod 256 * 16777216 = n"
proof -
  have e0: "n = n div 256 * 256 + n mod 256" by simp
  have "n div 65536 = n div 256 div 256" using div_mult2_eq[of n 256 256] by simp
  then have e1: "n div 256 = n div 65536 * 256 + n div 256 mod 256" by simp
  have "n div 16777216 = n div 65536 div 256" using div_mult2_eq[of n 65536 256] by simp
  then have e2: "n div 65536 = n div 16777216 * 256 + n div 65536 mod 256" by simp
  have "n div 16777216 < 256" using assms by (simp add: div_less_iff_less_mult)
  then have e3: "n div 16777216 mod 256 = n div 16777216" by simp
  show ?thesis unfolding e3 using e0 e1 e2 by (rule digits256_abs)
qed

lemma char_of_low: "char_of ((n::nat) mod 256) = char_of n" by simp

lemma bytes3:
  "char_of ((of_char a * 65536 + of_char b * 256 + of_char c :: nat) div 65536) = a"
  "char_of ((of_char a * 65536 + of_char b * 256 + of_char c :: nat) div 256) = b"
  "char_of ((of_char a * 65536 + of_char b * 256 + of_char c :: nat)) = c"
proof -
  let ?N = "of_char a * 65536 + of_char b * 256 + of_char c :: nat"
  have 1: "?N div 65536 = of_char a" using b3(1)[OF of_char_lt of_char_lt] .
  have 2: "?N div 256 mod 256 = of_char b" using b3(2)[OF of_char_lt of_char_lt] .
  have 3: "?N mod 256 = of_char c" using b3(3)[OF of_char_lt of_char_lt] .
  show "char_of (?N div 65536) = a" by (simp only: 1 char_of_char)
  have "char_of (?N div 256) = char_of (?N div 256 mod 256)" by (simp only: char_of_low)
  then show "char_of (?N div 256) = b" by (simp only: 2 char_of_char)
  have "char_of ?N = char_of (?N mod 256)" by (simp only: char_of_low)
  then show "char_of ?N = c" by (simp only: 3 char_of_char)
qed

lemma bytes2:
  "char_of ((of_char a * 65536 + of_char b * 256 :: nat) div 65536) = a"
  "char_of ((of_char a * 65536 + of_char b * 256 :: nat) div 256) = b"
proof -
  let ?N = "of_char a * 65536 + of_char b * 256 :: nat"
  have "?N div 65536 = of_char a"
    using of_char_lt[of b] by (intro div_nat_eqI) simp_all
  then show "char_of (?N div 65536) = a" by (simp only: char_of_char)
  have "?N div 256 = of_char a * 256 + of_char b"
    by (intro div_nat_eqI) simp_all
  moreover have "(of_char a * 256 + of_char b :: nat) mod 256 = of_char b"
    using of_char_lt[of b] by (simp only: mod_mult_self3 mod_less)
  ultimately have "?N div 256 mod 256 = of_char b" by (simp only:)
  moreover have "char_of (?N div 256) = char_of (?N div 256 mod 256)" by (simp only: char_of_low)
  ultimately show "char_of (?N div 256) = b" by (simp only: char_of_char)
qed

lemma bytes1: "char_of ((of_char a * 65536 :: nat) div 65536) = a"
proof -
  have "(of_char a * 65536 :: nat) div 65536 = of_char a" by simp
  then show ?thesis by (simp only: char_of_char)
qed

lemma decode_quanta_sextets: "decode_quanta (sextets bs) = Some bs"
proof (induction bs rule: sextets.induct)
  case (1 a b c rest)
  let ?N = "of_char a * 65536 + of_char b * 256 + of_char c :: nat"
  have lt: "?N < 16777216" using of_char_lt[of a] of_char_lt[of b] of_char_lt[of c] by linarith
  show ?case
    by (simp only: sextets.simps decode_quanta.simps Let_def quad[OF lt] bytes3 1 option.case)
next
  case (2 a b)
  show ?case
    by (simp only: sextets.simps decode_quanta.simps Let_def tri[OF of_char_lt of_char_lt] bytes2)
next
  case (3 a)
  show ?case
    by (simp only: sextets.simps decode_quanta.simps Let_def duo[OF of_char_lt] bytes1)
next
  case 4
  then show ?case by simp
qed

lemma DecodeString_EncodeToString: "DecodeString (EncodeToString bs) = Some bs"
proof -
  have nl: "filter (\<lambda>c. c \<noteq> CHR 0x0A \<and> c \<noteq> CHR 0x0D) (EncodeToString bs) = EncodeToString bs"
    unfolding EncodeToString_def by (rule filter_True) (auto dest: sextets_lt encode_not_nl)
  have "those (map decodeMap (map (\<lambda>v. encodeURL ! v) (sextets bs))) = Some (sextets bs)"
    by (rule those_map_Some) (simp add: sextets_lt decodeMap_encode)
  then show ?thesis
    unfolding DecodeString_def nl by (simp add: EncodeToString_def decode_quanta_sextets)
qed

lemma Uint32_PutUint32: "Uint32 (PutUint32 v @ rest) = v"
proof -
  let ?P = "PutUint32 v @ rest"
  have lt: "unat v < 4294967296" using unsigned_less[of v, where 'a=nat] by simp
  have nths: "?P ! 0 = char_of (unat v div 16777216)" "?P ! 1 = char_of (unat v div 65536)"
    "?P ! 2 = char_of (unat v div 256)" "?P ! 3 = char_of (unat v)"
    by (simp_all add: PutUint32_def)
  have sum: "of_char (?P ! 3) + of_char (?P ! 2) * 256 + of_char (?P ! 1) * 65536
               + of_char (?P ! 0) * 16777216 = unat v"
    by (simp only: nths of_char_of digits256[OF lt])
  show ?thesis unfolding Uint32_def sum by simp
qed

lemma decode_encode: "decodeServerName (encodeServerName name) = Inr name"
proof -
  let ?b = "PutUint32 (ChecksumIEEE name) @ EncodeToString name"
  have len: "length (PutUint32 (ChecksumIEEE name)) = 4" by (simp add: PutUint32_def)
  have d: "drop 4 ?b = EncodeToString name" using len by simp
  have t: "Uint32 (take 4 ?b) = ChecksumIEEE name"
    using Uint32_PutUint32[of "ChecksumIEEE name" "[]"] len by simp
  show ?thesis
    unfolding decodeServerName_def encodeServerName_def DecodeString_EncodeToString
    using len by (simp add: d t DecodeString_EncodeToString del: take_append drop_append)
qed

text \<open>
  C2: the encoder emits the unpadded URL-safe base64 of the big-endian CRC-32 of the name
  followed by the unpadded URL-safe base64 of the name, and decoding what it emits
  succeeds and returns the name, for every byte string.
\<close>

theorem codec_roundtrip:
  "encodeServerName name = EncodeToString (PutUint32 (ChecksumIEEE name) @ EncodeToString name)
   \<and> decodeServerName (encodeServerName name) = Inr name"
  by (simp add: decode_encode) (simp add: encodeServerName_def)

text \<open>
  C3, as stated: \<open>decodeServerName\<close> fails iff the CRC prefix does not match. The
  empty string refutes it: it decodes to no bytes at all, the decoder fails on the
  length check, and there is no prefix that mismatches.
\<close>

theorem decode_fails_without_crc_mismatch:
  "fails (decodeServerName []) \<and> \<not> crc_mismatch []"
  by (simp add: decodeServerName_def crc_mismatch_def fails_def DecodeString_def)

text \<open>
  C3, amended: \<open>decodeServerName\<close> fails iff the input is not unpadded URL-safe
  base64, or it decodes to fewer than four bytes, or the bytes after the first four are
  not unpadded URL-safe base64, or the CRC-32 of the decoded name differs from the
  big-endian prefix.
\<close>

theorem decode_fails_iff:
  "fails (decodeServerName s) =
     (malformed_outer s \<or> too_short s \<or> malformed_inner s \<or> crc_mismatch s)"
  by (simp add: decodeServerName_def fails_def malformed_outer_def too_short_def
      malformed_inner_def crc_mismatch_def split: option.splits)

subsection \<open>The codec on known values\<close>

text \<open>
  The checksum of \<open>123456789\<close> is the check value of CRC-32, and the encoding of
  \<open>real.example\<close> is the one Go computes.
\<close>

lemma IEEETable_unroll:
  "IEEETable i =
     crc_step (crc_step (crc_step (crc_step (crc_step (crc_step (crc_step (crc_step i)))))))"
  by (simp add: IEEETable_def eval_nat_numeral)

lemmas codec_simps = IEEETable_unroll crc_step_def ChecksumIEEE_def crc_update_def
  mask_eq_exp_minus_1 PutUint32_def char_of_def bit_Suc_0_iff

lemma ChecksumIEEE_check_value: "ChecksumIEEE ''123456789'' = 0xCBF43926"
  by (simp add: codec_simps)

lemma ChecksumIEEE_real:
  "PutUint32 (ChecksumIEEE ''real.example'') = [CHR 0x09, CHR 0x29, CHR 0xCA, CHR 0x05]"
  by (simp add: codec_simps)

lemma EncodeToString_real: "EncodeToString ''real.example'' = ''cmVhbC5leGFtcGxl''"
  by (simp add: EncodeToString_def encodeURL_def Let_def)

lemma encodeServerName_real:
  "encodeServerName ''real.example'' = ''CSnKBWNtVmhiQzVsZUdGdGNHeGw''"
  unfolding encodeServerName_def ChecksumIEEE_real EncodeToString_real
  by (simp add: EncodeToString_def encodeURL_def Let_def)

subsection \<open>Evaluation of the examples\<close>

lemma sextets_length: "length (sextets bs) = (4 * length bs + 2) div 3"
  by (induction bs rule: sextets.induct) (simp_all add: Let_def)

lemma encodeServerName_length:
  "length (encodeServerName name) = (4 * (4 + (4 * length name + 2) div 3) + 2) div 3"
proof -
  have "length (PutUint32 (ChecksumIEEE name)) = 4" by (simp add: PutUint32_def)
  then show ?thesis
    by (simp only: encodeServerName_def EncodeToString_def length_map sextets_length length_append)
qed

lemma enc_real_len: "length (encodeServerName ''real.example'') = 27"
  by (simp add: encodeServerName_length)

lemma Suc_Suc_0: "Suc (Suc 0) = 2"
  by simp

lemmas wire_simps = Suc_Suc_0 tls_def tls_ReadRecord_def tls_WriteTo_def tls_Decode_def
  tls_Encode_def Uint16_def PutUint16_def char_of_def bit_Suc_0_iff result_bind_def
  read_vector_def readExtensions.simps decodeExtension_def Let_def ExtServerName_def
  NewExtension_def enc_real_len

lemmas str_simps = clean_line_def line_fields_def Split_def TrimSpace_def TrimLeft.simps
  TrimRight.simps space_prefix_len_def space_suffix_len_def asciiSpace_def HasPrefix_def
  HasSuffix_def unicode_spaces_def Let_def

lemma junk_undecodable: "decodeServerName ''junk'' = Inl ErrInvalidName"
  by (simp add: decodeServerName_def DecodeString_def decodeMap_def encodeURL_def upt_rec Let_def)

subsection \<open>The SNI rewriting\<close>

lemma strip_loop_eq:
  "strip_loop xs h acc = (acc @ filter kept xs, last_obfs_host xs h)"
  by (induction xs arbitrary: h acc)
     (auto simp: kept_def is_obfs_def undecodable_def obfs_payload_def fails_def split: sum.splits)

lemma obfs_payload_encoded: "obfs_payload (OtherExtension t (encodeServerName name)) = Inr name"
  by (simp add: obfs_payload_def PutUint16_def decode_encode)

lemma last_obfs_host_snoc:
  "last_obfs_host (xs @ [OtherExtension 0xFFFE (encodeServerName name)]) h = name"
  by (induction xs arbitrary: h) (auto simp: is_obfs_def obfs_payload_encoded split: sum.splits)

lemma not_kept_encoded: "\<not> kept (OtherExtension 0xFFFE (encodeServerName name))"
  by (simp add: kept_def is_obfs_def undecodable_def obfs_payload_encoded fails_def)

lemma kept_sni: "kept (ServerNameExtension nt name)"
  by (simp add: kept_def is_obfs_def ExtServerName_def)

lemma sni_loop_first:
  assumes "\<forall>e\<in>set xs. Extension_Type e \<noteq> ExtServerName"
  shows "sni_loop seen (xs @ ServerNameExtension nt name # ys) h isClient =
           Ok (seen @ xs
                 @ (if (if h = [] then name else h) \<noteq> []
                    then ServerNameExtension nt (if h = [] then name else h)
                    else ServerNameExtension nt name)
                 # ys @ (if isClient then [NewExtension 0xFFFE (encodeServerName name)] else []),
               if h = [] then name else h)"
  using assms by (induction xs arbitrary: seen) (auto simp: Let_def)

text \<open>
  C1, as stated, says that the record the server emits contains no \<open>0xFFFE\<close>
  extension. A ClientHello that carries \<open>real.example\<close> and a \<open>0xFFFE\<close> extension
  of its own with the payload \<open>junk\<close> refutes it: the client appends its extension,
  the server recovers \<open>real.example\<close> and emits the original record again, which
  still carries the extension with the payload \<open>junk\<close>, because that does not decode.
\<close>

theorem sni_roundtrip_keeps_undecodable:
  "readClientHelloRecord tls hello_junk ''decoy.example'' True
     = Ok (hello_junk_decoy, ''decoy.example'')
   \<and> readClientHelloRecord tls hello_junk_decoy [] False = Ok (hello_junk, ''real.example'')
   \<and> tls_ReadRecord hello_junk
       = Ok \<lparr>Type = CHR 0x16, Version = 0x0301, Opaque = drop 5 hello_junk\<rparr>
   \<and> tls_Decode (drop 5 hello_junk)
       = Ok (ch_with [ServerNameExtension (CHR 0x00) ''real.example'',
                      OtherExtension 0xFFFE ''junk''])"
proof -
  have 1: "readClientHelloRecord tls hello_junk ''decoy.example'' True
             = Ok (hello_junk_decoy, ''decoy.example'')"
    by (simp add: hello_junk_def hello_junk_decoy_def hello_junk_decoy_head_def wire_simps
        readClientHelloRecord_def rewrite_hello_def)
  have 2: "readClientHelloRecord tls hello_junk_decoy [] False = Ok (hello_junk, ''real.example'')"
    by (simp add: hello_junk_def hello_junk_decoy_def hello_junk_decoy_head_def wire_simps
        readClientHelloRecord_def rewrite_hello_def decode_encode junk_undecodable)
  have 3: "tls_ReadRecord hello_junk
             = Ok \<lparr>Type = CHR 0x16, Version = 0x0301, Opaque = drop 5 hello_junk\<rparr>"
    by (simp add: hello_junk_def wire_simps)
  have 4: "tls_Decode (drop 5 hello_junk)
             = Ok (ch_with [ServerNameExtension (CHR 0x00) ''real.example'',
                            OtherExtension 0xFFFE ''junk''])"
    by (simp add: hello_junk_def ch_with_def client_random_def wire_simps)
  show ?thesis using 1 2 3 4 by simp
qed

text \<open>
  C1, amended: let a record parse to a ClientHello whose first \<open>server_name\<close>
  extension carries the non-empty name \<open>real\<close>. The client rewrite with the non-empty
  host \<open>decoy\<close> returns the record of the same ClientHello with \<open>decoy\<close> as server
  name and one more extension, of type \<open>0xFFFE\<close>, whose payload decodes to
  \<open>real\<close>. The server rewrite of that record returns the host \<open>real\<close> and the
  record of the ClientHello with the server name \<open>real\<close> again and without the
  \<open>0xFFFE\<close> extensions that decode: every \<open>0xFFFE\<close> extension left is one of the
  original ClientHello whose payload does not decode. The dissector is a parameter; its
  reading and writing of the three records are the hypotheses.
\<close>

theorem sni_rewrite_roundtrip:
  assumes parse: "ReadRecord D r = Ok rec" "Decode D (Opaque rec) = Ok ch"
    and exts: "Extensions ch = pre @ ServerNameExtension nt real # post"
    and pre: "\<forall>e\<in>set pre. Extension_Type e \<noteq> ExtServerName"
    and names: "real \<noteq> []" "decoy \<noteq> []"
    and ser1: "Encode D (ch\<lparr>Extensions := pre @ ServerNameExtension nt decoy # post
                  @ [NewExtension 0xFFFE (encodeServerName real)]\<rparr>) = Ok o1"
              "WriteTo D (rec\<lparr>Opaque := o1\<rparr>) = Ok b1"
    and parse1: "ReadRecord D b1 = Ok rec1"
              "Decode D (Opaque rec1) = Ok (ch\<lparr>Extensions := pre @ ServerNameExtension nt decoy # post
                  @ [NewExtension 0xFFFE (encodeServerName real)]\<rparr>)"
    and ser2: "Encode D (ch\<lparr>Extensions := filter kept pre @ ServerNameExtension nt real
                  # filter kept post\<rparr>) = Ok o2"
              "WriteTo D (rec1\<lparr>Opaque := o2\<rparr>) = Ok b2"
  shows "readClientHelloRecord D r decoy True = Ok (b1, decoy)
       \<and> is_obfs (NewExtension 0xFFFE (encodeServerName real))
       \<and> obfs_payload (NewExtension 0xFFFE (encodeServerName real)) = Inr real
       \<and> readClientHelloRecord D b1 [] False = Ok (b2, real)
       \<and> (\<forall>e \<in> set (filter kept pre @ ServerNameExtension nt real # filter kept post).
             is_obfs e \<longrightarrow> e \<in> set (Extensions ch) \<and> undecodable e)"
proof -
  let ?new = "NewExtension 0xFFFE (encodeServerName real)"
  let ?E1 = "pre @ ServerNameExtension nt decoy # post @ [?new]"
  let ?E2 = "filter kept pre @ ServerNameExtension nt real # filter kept post"
  have c: "rewrite_hello ch decoy True = Ok (ch\<lparr>Extensions := ?E1\<rparr>, decoy)"
    using names sni_loop_first[OF pre, of "[]" nt real post decoy True]
    by (simp add: rewrite_hello_def exts result_bind_def)
  have client: "readClientHelloRecord D r decoy True = Ok (b1, decoy)"
    by (simp add: readClientHelloRecord_def result_bind_def parse c ser1)
  have strip: "strip_loop ?E1 [] []
                 = (filter kept pre @ ServerNameExtension nt decoy # filter kept post, real)"
  proof -
    have "?E1 = (pre @ ServerNameExtension nt decoy # post)
                  @ [OtherExtension 0xFFFE (encodeServerName real)]"
      by (simp add: NewExtension_def)
    then have "last_obfs_host ?E1 [] = real"
      using last_obfs_host_snoc[of "pre @ ServerNameExtension nt decoy # post" real "[]"]
      by simp
    then show ?thesis
      using not_kept_encoded[of real] by (simp add: strip_loop_eq kept_sni NewExtension_def)
  qed
  have pre': "\<forall>e\<in>set (filter kept pre). Extension_Type e \<noteq> ExtServerName"
    using pre by simp
  have s: "rewrite_hello (ch\<lparr>Extensions := ?E1\<rparr>) [] False = Ok (ch\<lparr>Extensions := ?E2\<rparr>, real)"
    using names sni_loop_first[OF pre', of "[]" nt decoy "filter kept post" real False]
    by (simp add: rewrite_hello_def strip result_bind_def)
  have server: "readClientHelloRecord D b1 [] False = Ok (b2, real)"
    by (simp add: readClientHelloRecord_def result_bind_def parse1 s ser2)
  have left: "\<forall>e \<in> set ?E2. is_obfs e \<longrightarrow> e \<in> set (Extensions ch) \<and> undecodable e"
    by (auto simp: exts kept_def is_obfs_def ExtServerName_def)
  have new: "is_obfs ?new" "obfs_payload ?new = Inr real"
    by (simp_all add: is_obfs_def NewExtension_def obfs_payload_encoded)
  show ?thesis
    using client server left new by simp
qed

lemma read_real:
  "tls_ReadRecord hello_real = Ok \<lparr>Type = CHR 0x16, Version = 0x0301, Opaque = drop 5 hello_real\<rparr>"
  by (simp add: hello_real_def wire_simps)

lemma decode_real:
  "tls_Decode (drop 5 hello_real) = Ok (ch_with [ServerNameExtension (CHR 0x00) ''real.example''])"
  by (simp add: hello_real_def ch_with_def client_random_def wire_simps)

lemma encode_decoy:
  "tls_Encode (ch_with [ServerNameExtension (CHR 0x00) ''decoy.example'',
                        OtherExtension 0xFFFE (encodeServerName ''real.example'')])
     = Ok (drop 5 hello_decoy)"
  by (simp add: hello_decoy_def hello_decoy_head_def ch_with_def client_random_def wire_simps)

lemma write_decoy:
  "tls_WriteTo \<lparr>Type = CHR 0x16, Version = 0x0301, Opaque = drop 5 hello_decoy\<rparr> = Ok hello_decoy"
  by (simp add: hello_decoy_def hello_decoy_head_def wire_simps)

lemma read_decoy:
  "tls_ReadRecord hello_decoy = Ok \<lparr>Type = CHR 0x16, Version = 0x0301, Opaque = drop 5 hello_decoy\<rparr>"
  by (simp add: hello_decoy_def hello_decoy_head_def wire_simps)

lemma decode_decoy:
  "tls_Decode (drop 5 hello_decoy)
     = Ok (ch_with [ServerNameExtension (CHR 0x00) ''decoy.example'',
                    OtherExtension 0xFFFE (encodeServerName ''real.example'')])"
  by (simp add: hello_decoy_def hello_decoy_head_def ch_with_def client_random_def wire_simps)

lemma encode_real:
  "tls_Encode (ch_with [ServerNameExtension (CHR 0x00) ''real.example'']) = Ok (drop 5 hello_real)"
  by (simp add: hello_real_def ch_with_def client_random_def wire_simps)

lemma write_real:
  "tls_WriteTo \<lparr>Type = CHR 0x16, Version = 0x0301, Opaque = drop 5 hello_real\<rparr> = Ok hello_real"
  by (simp add: hello_real_def wire_simps)

text \<open>
  The hypotheses hold for the TLS wire format and the record \<open>hello_real\<close>: the
  client turns it into \<open>hello_decoy\<close>, the server turns that into \<open>hello_real\<close>
  again and recovers the name.
\<close>

theorem sni_rewrite_roundtrip_witness:
  "readClientHelloRecord tls hello_real ''decoy.example'' True = Ok (hello_decoy, ''decoy.example'')
   \<and> readClientHelloRecord tls hello_decoy [] False = Ok (hello_real, ''real.example'')"
  using sni_rewrite_roundtrip[of tls hello_real
      "\<lparr>Type = CHR 0x16, Version = 0x0301, Opaque = drop 5 hello_real\<rparr>"
      "ch_with [ServerNameExtension (CHR 0x00) ''real.example'']" "[]" "CHR 0x00"
      "''real.example''" "[]" "''decoy.example''" "drop 5 hello_decoy" hello_decoy
      "\<lparr>Type = CHR 0x16, Version = 0x0301, Opaque = drop 5 hello_decoy\<rparr>"
      "drop 5 hello_real" hello_real]
    read_real decode_real encode_decoy write_decoy read_decoy decode_decoy encode_real write_real
  by (simp add: tls_def ch_with_def NewExtension_def ExtServerName_def)

subsection \<open>The SNI client's \<open>Write\<close>\<close>

lemma http_loop_unfold:
  "http_loop h buf rest =
     (if snd (snd (ReadString rest))
      then (if fst (ReadString rest) \<noteq> [] then buf @ fst (ReadString rest) else buf)
      else if fst (ReadString rest) = CRLF
      then buf @ fst (ReadString rest) @ fst (snd (ReadString rest))
      else if HasPrefix (fst (ReadString rest)) ''Host'' then
        buf @ ''Host: '' @ h @ CRLF
          @ ''Gost-Target: ''
          @ encodeServerName
              (TrimSpace (TrimSuffix (TrimPrefix (fst (ReadString rest)) ''Host:'') CRLF))
          @ CRLF @ fst (snd (ReadString rest))
      else http_loop h (buf @ fst (ReadString rest)) (fst (snd (ReadString rest))))"
  by (subst http_loop.simps) (simp split: prod.splits)

lemma http_loop_request:
  "http_loop ''cdn.example'' [] http_request =
     ''GET / HTTP/1.1'' @ CRLF @ ''Host: cdn.example'' @ CRLF @ ''Gost-Target: ''
       @ encodeServerName ''blocked.example'' @ CRLF @ CRLF"
  by (simp add: http_request_def http_loop_unfold ReadString_def CRLF_def TrimPrefix_def
      TrimSuffix_def str_simps)

lemma obfuscate_plain:
  assumes "p = p0 # ps" "p0 \<noteq> Handshake" "sni_host c \<noteq> []" "\<not> obfuscated c"
  shows "obfuscate D c p = (Ok (http_loop (sni_host c) [] p), c\<lparr>obfuscated := True\<rparr>)"
  using assms by (simp add: obfuscate_def)

text \<open>
  C10: a \<open>Write\<close> that succeeds returns the length of the caller's buffer, whatever
  was written to the underlying connection.
\<close>

theorem sniClientConn_Write_len:
  "sniClientConn_Write D W c p = (Ok n, c') \<Longrightarrow> n = length p"
  by (auto simp: sniClientConn_Write_def split: prod.splits result.splits option.splits)

text \<open>
  On the HTTP request of 41 bytes the client writes 84 bytes to the underlying
  connection and returns 41.
\<close>

theorem sniClientConn_Write_len_witness:
  "sniClientConn_Write tls conn_ok
      \<lparr>sni_addr = ''blocked.example:80'', sni_host = ''cdn.example'', obfuscated = False\<rparr>
      http_request
     = (Ok 41, \<lparr>sni_addr = ''blocked.example:80'', sni_host = ''cdn.example'', obfuscated = True\<rparr>)
   \<and> fst (obfuscate tls
            \<lparr>sni_addr = ''blocked.example:80'', sni_host = ''cdn.example'', obfuscated = False\<rparr>
            http_request)
       = Ok (''GET / HTTP/1.1'' @ CRLF @ ''Host: cdn.example'' @ CRLF @ ''Gost-Target: ''
               @ encodeServerName ''blocked.example'' @ CRLF @ CRLF)
   \<and> length (''GET / HTTP/1.1'' @ CRLF @ ''Host: cdn.example'' @ CRLF @ ''Gost-Target: ''
               @ encodeServerName ''blocked.example'' @ CRLF @ CRLF) = 84
   \<and> length http_request = 41"
proof -
  let ?c = "\<lparr>sni_addr = ''blocked.example:80'', sni_host = ''cdn.example'', obfuscated = False\<rparr>"
  let ?c' = "\<lparr>sni_addr = ''blocked.example:80'', sni_host = ''cdn.example'', obfuscated = True\<rparr>"
  let ?out = "''GET / HTTP/1.1'' @ CRLF @ ''Host: cdn.example'' @ CRLF @ ''Gost-Target: ''
               @ encodeServerName ''blocked.example'' @ CRLF @ CRLF"
  have p: "http_request = CHR ''G'' # drop 1 http_request"
    by (simp add: http_request_def)
  have ob: "obfuscate tls ?c http_request = (Ok ?out, ?c')"
    using obfuscate_plain[OF p, of ?c tls] by (simp add: Handshake_def http_loop_request)
  then obtain n where w: "sniClientConn_Write tls conn_ok ?c http_request = (Ok n, ?c')"
    by (simp add: sniClientConn_Write_def conn_ok_def)
  have len: "length http_request = 41"
    by (simp add: http_request_def)
  have "n = 41"
    using sniClientConn_Write_len[OF w] len by simp
  moreover have "length ?out = 84"
    by (simp add: encodeServerName_length CRLF_def)
  ultimately show ?thesis
    using w ob len by simp
qed

subsection \<open>\<open>Bypass.Reload\<close>\<close>

lemma clean_reverse: "clean_line ''reverse true'' = ''reverse true''"
  by (simp add: str_simps)

lemma fields_reverse: "line_fields ''reverse true'' = [''reverse'', ''true'']"
  by (simp add: str_simps)

text \<open>The matcher list is assigned only when the scanner reports no error.\<close>

lemma bypass_reload_loop_matchers:
  "matchers (fst (snd (bypass_reload_loop L ls bp ms))) = matchers bp"
  by (induction ls arbitrary: bp ms) (auto simp: Let_def split: result.splits)

lemma Bypass_Reload_error_matchers:
  "snd sc = Some err \<Longrightarrow> matchers (snd (Bypass_Reload L bp sc)) = matchers bp"
  using bypass_reload_loop_matchers[of L "fst sc" bp "[]"]
  by (auto simp: Bypass_Reload_def split: prod.splits)

text \<open>
  C6: a \<open>Reload\<close> that returns an error should leave matchers, reversed flag and
  period as they were. When the scanner yields the line \<open>reverse true\<close> and then
  fails, \<open>Reload\<close> returns the scanner's error, and the flag, false before, is true.
\<close>

theorem Bypass_Reload_error_changes_reversed:
  "Bypass_Reload L \<lparr>matchers = ms, reversed = False, bp_period = p\<rparr>
       ([''reverse true''], Some err)
     = (Ok (Some err), \<lparr>matchers = ms, reversed = True, bp_period = p\<rparr>)"
  by (simp add: Bypass_Reload_def clean_reverse fields_reverse HasPrefix_def ParseBool_def)

subsection \<open>The resolver\<close>

lemma clean_timeout: "clean_line ''timeout 0s'' = ''timeout 0s''"
  by (simp add: str_simps)

lemma fields_timeout: "line_fields ''timeout 0s'' = [''timeout'', ''0s'']"
  by (simp add: str_simps)

text \<open>What \<open>NewResolver\<close> establishes, and what a negative TTL does.\<close>

lemma NewResolver_defaults:
  "Timeout (NewResolver timeout ttl servers)
     = (if sint timeout \<le> 0 then DefaultResolverTimeout else timeout)
   \<and> TTL (NewResolver timeout ttl servers) = (if ttl = 0 then DefaultResolverTTL else ttl)"
  by (simp add: NewResolver_def resolver_init_def)

lemma negative_TTL_disables_cache:
  "sint (TTL r) < 0 \<Longrightarrow> loadCache now r name = [] \<and> storeCache now r name ips = r"
  by (simp add: loadCache_def storeCache_def)

text \<open>
  C7: in every state reached through \<open>NewResolver\<close> and \<open>Reload\<close> a timeout
  \<open>\<le> 0\<close> should have been replaced by 30s. After \<open>NewResolver(5s, 10s)\<close> a
  \<open>Reload\<close> of the line \<open>timeout 0s\<close> leaves the timeout at 0, and that is
  the timeout \<open>Resolve\<close> uses: \<open>Reload\<close> does not call \<open>init\<close>. The two
  hypotheses are what Go's \<open>strings.ToLower\<close> and \<open>time.ParseDuration\<close> return.
\<close>

theorem Reload_leaves_zero_timeout:
  assumes "ToLower L ''timeout'' = ''timeout''" "ParseDuration L ''0s'' = 0"
  shows "resolver_Reload L (NewResolver 5000000000 10000000000 []) ([''timeout 0s''], None)
           = (None, \<lparr>Servers = [], mCache = Map.empty, Timeout = 0, TTL = 10000000000,
                     r_period = 0\<rparr>)
         \<and> Resolve_timeout
             (snd (resolver_Reload L (NewResolver 5000000000 10000000000 [])
                     ([''timeout 0s''], None))) = 0"
  using assms
  by (simp add: resolver_Reload_def NewResolver_def resolver_init_def clean_timeout
      fields_timeout Resolve_timeout_def)

theorem Reload_leaves_zero_timeout_witness:
  "ToLower example_lib ''timeout'' = ''timeout'' \<and> ParseDuration example_lib ''0s'' = 0
   \<and> Resolve_timeout
       (snd (resolver_Reload example_lib (NewResolver 5000000000 10000000000 [])
               ([''timeout 0s''], None))) = 0"
  using Reload_leaves_zero_timeout[of example_lib]
  by (simp add: example_lib_def Resolve_timeout_def)

end
